theory Spec2Isabelle
  imports Main
begin

text \<open>
  A model of two parts of Vortex: the wrapper around the file-system module
  (\<^verbatim>\<open>src/util/fs.ts\<close>), which retries failed calls after asking the user, and the event
  handlers of mod management (\<^verbatim>\<open>onGameModeActivated\<close>, \<^verbatim>\<open>onPathsChanged\<close>, \<^verbatim>\<open>undeploy\<close>,
  \<^verbatim>\<open>onRemoveMod\<close>). Promises are modelled by how they settle; what lies outside the
  code (the file system, the dialog, the elevated helper, the store, the deployment
  method) is given by the answers it returns and recorded by the calls it receives.
\<close>

section \<open>Errors and promise outcomes\<close>

text \<open>
  The classes of the values a promise of \<^verbatim>\<open>util/fs.ts\<close> or of the mod-management
  event handlers can reject with: the three custom errors imported from
  \<^verbatim>\<open>util/CustomErrors\<close>, the \<^verbatim>\<open>NodeJS.ErrnoException\<close> of a failed file-system call,
  and a plain \<^verbatim>\<open>Error\<close>.
\<close>

datatype err_class = UserCanceled | ProcessCanceled | TemporaryError | ErrnoException | PlainError

text \<open>
  Messages are built by template strings in the source. A message is kept as the template
  with its holes: \<open>ClassDefault\<close> is the message a custom error class gives itself
  (\<^verbatim>\<open>new UserCanceled()\<close> takes no argument), \<open>SameFileMsg src dest ino\<close> is
  \<^verbatim>\<open>Source "src" and destination "dest" are the same file (id "ino").\<close>,
  \<open>OsErrorMsg m c\<close> is \<^verbatim>\<open>OS error m (c)\<close>, and \<open>IpcMsg e\<close> is \<^verbatim>\<open>new Error(ipcErr)\<close>.
\<close>

datatype message =
    ClassDefault
  | Text string
  | SameFileMsg string string nat
  | OsErrorMsg string int
  | IpcMsg string

text \<open>
  An error object with the fields the code reads: \<^verbatim>\<open>code\<close>, \<^verbatim>\<open>path\<close>, \<^verbatim>\<open>dest\<close>
  (\<open>None\<close> is \<^verbatim>\<open>undefined\<close>) and \<^verbatim>\<open>message\<close>. The field \<open>stack\<close> is \<open>None\<close> while the
  error still has the stack it was created with, and \<open>Some site\<close> once \<open>restackErr\<close> has
  replaced the getter by the backtrace captured at the call site \<open>site\<close>.
\<close>

record error =
  cls :: err_class
  code :: "string option"
  path :: "string option"
  dest :: "string option"
  message :: message
  stack :: "string option"

definition new_UserCanceled :: error where
  "new_UserCanceled =
     \<lparr>cls = UserCanceled, code = None, path = None, dest = None,
      message = ClassDefault, stack = None\<rparr>"

definition new_ProcessCanceled :: "string \<Rightarrow> error" where
  "new_ProcessCanceled m =
     \<lparr>cls = ProcessCanceled, code = None, path = None, dest = None,
      message = Text m, stack = None\<rparr>"

definition new_TemporaryError :: "string \<Rightarrow> error" where
  "new_TemporaryError m =
     \<lparr>cls = TemporaryError, code = None, path = None, dest = None,
      message = Text m, stack = None\<rparr>"

definition new_Error :: "message \<Rightarrow> error" where
  "new_Error m =
     \<lparr>cls = PlainError, code = None, path = None, dest = None, message = m, stack = None\<rparr>"

text \<open>
  \<^verbatim>\<open>restackErr(error, stackErr)\<close> redefines the \<^verbatim>\<open>stack\<close> property of the same object
  and returns it: class, code, path and message are untouched.
\<close>

definition restackErr :: "error \<Rightarrow> string \<Rightarrow> error" where
  "restackErr err stackErr = err\<lparr>stack := Some stackErr\<rparr>"

section \<open>The environment of the file-system layer\<close>

text \<open>A process reported by \<^verbatim>\<open>wholocks\<close>: application name and pid.\<close>

type_synonym process = "string \<times> nat"

text \<open>
  The options handed to \<^verbatim>\<open>dialog.showMessageBox\<close>: the title, the file path interpolated
  into the message, the processes listed in the detail (\<open>None\<close> when \<^verbatim>\<open>detail\<close> is
  undefined or absent) and the ordered button labels.
\<close>

record message_box =
  title :: string
  subject :: "string option"
  detail :: "process list option"
  buttons :: "string list"

text \<open>
  What ends a run of the elevated helper, as seen by the promise of \<^verbatim>\<open>elevated\<close>: the
  rejection of \<^verbatim>\<open>runElevated\<close> with a numeric code and a message, one of the two
  disconnect events of the ipc server, or its error event. Only the first event settles
  the promise.
\<close>

datatype elevated_event =
    RunElevatedFailed int string
  | SocketDisconnected
  | Disconnected
  | ServerError string

text \<open>
  The world outside the layer. \<open>dialog\<close> is \<^verbatim>\<open>dialog !== undefined\<close>; \<open>choices\<close> are the
  button indices \<^verbatim>\<open>showMessageBox\<close> will return, in order, and \<open>shown\<close> the boxes shown
  so far, oldest first; \<open>wholocks\<close> answers which processes hold a path; \<open>helper\<close> gives
  the outcome of each successive run of the elevated helper; \<open>logged\<close> collects the calls
  of \<^verbatim>\<open>log('error', ...)\<close>. A function of the layer returns \<open>None\<close> when it needs an
  answer of the world that the lists no longer hold.
\<close>

record world =
  dialog :: bool
  choices :: "nat list"
  shown :: "message_box list"
  wholocks :: "string option \<Rightarrow> process list"
  helper :: "elevated_event list"
  logged :: "(string \<times> message) list"

text \<open>A settled promise: \<open>Inl\<close> the rejection, \<open>Inr\<close> the value.\<close>

type_synonym 'a settled = "error + 'a"

definition showMessageBox :: "message_box \<Rightarrow> world \<Rightarrow> (nat \<times> world) option" where
  "showMessageBox box w =
     (case choices w of
        [] \<Rightarrow> None
      | choice # rest \<Rightarrow> Some (choice, w\<lparr>choices := rest, shown := shown w @ [box]\<rparr>))"

section \<open>Recovery prompts\<close>

text \<open>
  The \<^verbatim>\<open>options\<close> object each prompt builds, then the prompt itself. Button 0 is
  \<^verbatim>\<open>Cancel\<close> and rejects with \<^verbatim>\<open>UserCanceled\<close>. Without a dialog every prompt resolves
  to \<^verbatim>\<open>false\<close>.
\<close>

definition nospcQuery_options :: message_box where
  "nospcQuery_options =
     \<lparr>title = ''Disk full'', subject = None, detail = None,
      buttons = [''Cancel'', ''Retry'']\<rparr>"

definition nospcQuery :: "world \<Rightarrow> (bool settled \<times> world) option" where
  "nospcQuery w =
     (if \<not> dialog w then Some (Inr False, w)
      else
        (case showMessageBox nospcQuery_options w of
           None \<Rightarrow> None
         | Some (choice, w') \<Rightarrow>
             Some (if choice = 0 then Inl new_UserCanceled else Inr True, w')))"

definition unlockConfirm_options :: "string option \<Rightarrow> process list \<Rightarrow> message_box" where
  "unlockConfirm_options filePath processes =
     (let buttons0 = [''Cancel'', ''Retry''];
          buttons1 = (if length processes = 0 then buttons0 @ [''Give permission'']
                      else buttons0)
      in \<lparr>title = ''Access denied'', subject = filePath,
          detail = (if length processes = 0 then None else Some processes),
          buttons = buttons1\<rparr>)"

definition unlockConfirm :: "string option \<Rightarrow> world \<Rightarrow> (bool settled \<times> world) option" where
  "unlockConfirm filePath w =
     (if \<not> dialog w then Some (Inr False, w)
      else
        (let processes = wholocks w filePath
         in case showMessageBox (unlockConfirm_options filePath processes) w of
              None \<Rightarrow> None
            | Some (choice, w') \<Rightarrow>
                Some (if choice = 0 then Inl new_UserCanceled else Inr (choice = 2), w')))"

definition busyRetry_options :: "string option \<Rightarrow> process list \<Rightarrow> message_box" where
  "busyRetry_options filePath processes =
     \<lparr>title = ''File busy'', subject = filePath, detail = Some processes,
      buttons = [''Cancel'', ''Retry'']\<rparr>"

definition busyRetry :: "string option \<Rightarrow> world \<Rightarrow> (bool settled \<times> world) option" where
  "busyRetry filePath w =
     (if \<not> dialog w then Some (Inr False, w)
      else
        (let processes = wholocks w filePath
         in case showMessageBox (busyRetry_options filePath processes) w of
              None \<Rightarrow> None
            | Some (choice, w') \<Rightarrow>
                Some (if choice = 0 then Inl new_UserCanceled else Inr True, w')))"

section \<open>The elevated helper\<close>

text \<open>
  \<^verbatim>\<open>elevated(func, parameters)\<close>: the work itself runs in another process; the promise
  is settled by the first event. Code 5 of \<^verbatim>\<open>runElevated\<close> is the rejected UAC prompt.
  The argument is the path the helper is asked to unlock.
\<close>

definition elevated :: "string option \<Rightarrow> world \<Rightarrow> (unit settled \<times> world) option" where
  "elevated filePath w =
     (case helper w of
        [] \<Rightarrow> None
      | ev # rest \<Rightarrow>
          Some ((case ev of
                   RunElevatedFailed c m \<Rightarrow>
                     if c = 5 then Inl new_UserCanceled else Inl (new_Error (OsErrorMsg m c))
                 | SocketDisconnected \<Rightarrow> Inr ()
                 | Disconnected \<Rightarrow> Inr ()
                 | ServerError e \<Rightarrow> Inl (new_Error (IpcMsg e))),
                w\<lparr>helper := rest\<rparr>))"

section \<open>errorRepeat, errorHandler\<close>

definition errorRepeat :: "error \<Rightarrow> string option \<Rightarrow> world \<Rightarrow> (bool settled \<times> world) option" where
  "errorRepeat err filePath w =
     (if code err = Some ''EBUSY'' then busyRetry filePath w
      else if code err = Some ''ENOSPC'' then nospcQuery w
      else if code err = Some ''EPERM'' then
        (case unlockConfirm filePath w of
           None \<Rightarrow> None
         | Some (Inl e, w1) \<Rightarrow> Some (Inl e, w1)
         | Some (Inr doUnlock, w1) \<Rightarrow>
             if doUnlock then
               (case elevated filePath w1 of
                  None \<Rightarrow> None
                | Some (Inr u, w2) \<Rightarrow> Some (Inr True, w2)
                | Some (Inl elevatedErr, w2) \<Rightarrow>
                    Some (Inl err,
                          w2\<lparr>logged := logged w2 @
                                [(''failed to acquire permission'', message elevatedErr)]\<rparr>))
             else Some (Inr True, w1))
      else Some (Inr False, w))"

text \<open>\<^verbatim>\<open>(error as any).dest || error.path\<close>: an undefined or empty \<^verbatim>\<open>dest\<close> is falsy.\<close>

definition errorPath :: "error \<Rightarrow> string option" where
  "errorPath err =
     (case dest err of
        None \<Rightarrow> path err
      | Some d \<Rightarrow> if d = [] then path err else Some d)"

definition errorHandler :: "error \<Rightarrow> string \<Rightarrow> world \<Rightarrow> (unit settled \<times> world) option" where
  "errorHandler err stackErr w =
     (case errorRepeat err (errorPath err) w of
        None \<Rightarrow> None
      | Some (Inr repeat, w') \<Rightarrow>
          if repeat then Some (Inr (), w')
          else Some (Inl (restackErr (restackErr err stackErr) stackErr), w')
      | Some (Inl e, w') \<Rightarrow> Some (Inl (restackErr e stackErr), w'))"

section \<open>The wrapped operations\<close>

text \<open>
  The underlying call of \<^verbatim>\<open>fs-extra-promise\<close> (or \<^verbatim>\<open>rimraf\<close>) is given by the outcomes of
  its successive invocations. Every operation returns, with its own outcome, the
  outcomes it has not consumed: one element is consumed per invocation of the
  underlying call.
\<close>

type_synonym 'a attempts = "'a settled list"

text \<open>
  \<^verbatim>\<open>genWrapperAsync(func)\<close>: \<open>wrapper\<close> is the inner recursive function, called with the
  \<^verbatim>\<open>new Error()\<close> captured at the call site.
\<close>

fun wrapper :: "string \<Rightarrow> 'a attempts \<Rightarrow> world \<Rightarrow> ('a settled \<times> 'a attempts \<times> world) option" where
  "wrapper stackErr [] w = None"
| "wrapper stackErr (r # rest) w =
     (case r of
        Inr v \<Rightarrow> Some (Inr v, rest, w)
      | Inl err \<Rightarrow>
          (case errorHandler err stackErr w of
             None \<Rightarrow> None
           | Some (Inl e, w') \<Rightarrow> Some (Inl e, rest, w')
           | Some (Inr u, w') \<Rightarrow> wrapper stackErr rest w'))"

definition genWrapperAsync :: "'a attempts \<Rightarrow> string \<Rightarrow> world \<Rightarrow> ('a settled \<times> 'a attempts \<times> world) option" where
  "genWrapperAsync func callSite w = wrapper callSite func w"

text \<open>\<^verbatim>\<open>removeAsync\<close> / \<^verbatim>\<open>removeInt\<close>: the underlying call is \<^verbatim>\<open>rimraf\<close>.\<close>

fun removeInt :: "string \<Rightarrow> string \<Rightarrow> unit attempts \<Rightarrow> world \<Rightarrow> (unit settled \<times> unit attempts \<times> world) option" where
  "removeInt dirPath stackErr [] w = None"
| "removeInt dirPath stackErr (r # rest) w =
     (case r of
        Inr v \<Rightarrow> Some (Inr (), rest, w)
      | Inl err \<Rightarrow>
          if code err = Some ''ENOENT'' then Some (Inr (), rest, w)
          else
            (case errorHandler err stackErr w of
               None \<Rightarrow> None
             | Some (Inl e, w') \<Rightarrow> Some (Inl e, rest, w')
             | Some (Inr u, w') \<Rightarrow> removeInt dirPath stackErr rest w'))"

definition removeAsync :: "string \<Rightarrow> string \<Rightarrow> unit attempts \<Rightarrow> world \<Rightarrow> (unit settled \<times> unit attempts \<times> world) option" where
  "removeAsync dirPath callSite rimraf w = removeInt dirPath callSite rimraf w"

text \<open>\<^verbatim>\<open>unlinkAsync\<close> / \<^verbatim>\<open>unlinkInt\<close>.\<close>

fun unlinkInt :: "string \<Rightarrow> string \<Rightarrow> unit attempts \<Rightarrow> world \<Rightarrow> (unit settled \<times> unit attempts \<times> world) option" where
  "unlinkInt dirPath stackErr [] w = None"
| "unlinkInt dirPath stackErr (r # rest) w =
     (case r of
        Inr v \<Rightarrow> Some (Inr (), rest, w)
      | Inl err \<Rightarrow>
          if code err = Some ''ENOENT'' then Some (Inr (), rest, w)
          else
            (case errorHandler err stackErr w of
               None \<Rightarrow> None
             | Some (Inl e, w') \<Rightarrow> Some (Inl e, rest, w')
             | Some (Inr u, w') \<Rightarrow> unlinkInt dirPath stackErr rest w'))"

definition unlinkAsync :: "string \<Rightarrow> string \<Rightarrow> unit attempts \<Rightarrow> world \<Rightarrow> (unit settled \<times> unit attempts \<times> world) option" where
  "unlinkAsync dirPath callSite unlink w = unlinkInt dirPath callSite unlink w"

text \<open>
  \<^verbatim>\<open>rmdirAsync\<close> / \<^verbatim>\<open>rmdirInt\<close>: no prompt; a code of \<^verbatim>\<open>RETRY_ERRORS\<close> is retried after
  \<^verbatim>\<open>RETRY_DELAY_MS\<close> while \<^verbatim>\<open>tries > 0\<close>. The third component of the result is the
  sum of the delays waited, in milliseconds.
\<close>

definition NUM_RETRIES :: nat where
  "NUM_RETRIES = 3"

definition RETRY_DELAY_MS :: nat where
  "RETRY_DELAY_MS = 100"

definition RETRY_ERRORS :: "string set" where
  "RETRY_ERRORS = {''EPERM'', ''EBUSY'', ''EUNKNOWN''}"

definition retry_code :: "error \<Rightarrow> bool" where
  "retry_code err = (case code err of None \<Rightarrow> False | Some c \<Rightarrow> c \<in> RETRY_ERRORS)"

fun rmdirInt :: "string \<Rightarrow> string \<Rightarrow> nat \<Rightarrow> unit attempts \<Rightarrow> (unit settled \<times> unit attempts \<times> nat) option" where
  "rmdirInt dirPath stackErr tries [] = None"
| "rmdirInt dirPath stackErr tries (r # rest) =
     (case r of
        Inr v \<Rightarrow> Some (Inr (), rest, 0)
      | Inl err \<Rightarrow>
          if code err = Some ''ENOENT'' then Some (Inr (), rest, 0)
          else if retry_code err \<and> tries > 0 then
            (case rmdirInt dirPath stackErr (tries - 1) rest of
               None \<Rightarrow> None
             | Some (res, rest', waited) \<Rightarrow> Some (res, rest', RETRY_DELAY_MS + waited))
          else Some (Inl (restackErr err stackErr), rest, 0))"

definition rmdirAsync :: "string \<Rightarrow> string \<Rightarrow> unit attempts \<Rightarrow> (unit settled \<times> unit attempts \<times> nat) option" where
  "rmdirAsync dirPath callSite rmdir = rmdirInt dirPath callSite NUM_RETRIES rmdir"

text \<open>
  The part of \<^verbatim>\<open>fs.Stats\<close> the layer reads. The unwrapped \<^verbatim>\<open>fs.statAsync\<close> is a
  parameter of the operations that call it: the answer of the file system for each path
  while the operation runs.
\<close>

record stats =
  ino :: nat
  isDirectory :: bool

text \<open>
  \<^verbatim>\<open>selfCopyCheck\<close>: the destination's \<^verbatim>\<open>ENOENT\<close> becomes the empty object, whose
  \<^verbatim>\<open>ino\<close> is undefined (\<open>None\<close>) and so differs from the number of the source. When both
  calls of the \<^verbatim>\<open>join\<close> reject, the rejection of the first argument is taken.
\<close>

definition selfCopyCheck :: "(string \<Rightarrow> stats settled) \<Rightarrow> string \<Rightarrow> string \<Rightarrow> unit settled" where
  "selfCopyCheck statAsync src dst =
     (let stats1 =
            (case statAsync dst of
               Inl err \<Rightarrow> if code err = Some ''ENOENT'' then Inr None else Inl err
             | Inr st \<Rightarrow> Inr (Some st))
      in case statAsync src of
           Inl err \<Rightarrow> Inl err
         | Inr st0 \<Rightarrow>
             (case stats1 of
                Inl err \<Rightarrow> Inl err
              | Inr st1 \<Rightarrow>
                  if Some (ino st0) = map_option ino st1
                  then Inl (new_Error (SameFileMsg src dst (ino st0)))
                  else Inr ()))"

text \<open>\<^verbatim>\<open>fs.CopyOptions & { noSelfCopy?: boolean }\<close>; only \<^verbatim>\<open>noSelfCopy\<close> is read here.\<close>

record copy_options =
  noSelfCopy :: "bool option"

fun copyInt :: "string \<Rightarrow> string \<Rightarrow> string \<Rightarrow> unit attempts \<Rightarrow> world \<Rightarrow> (unit settled \<times> unit attempts \<times> world) option" where
  "copyInt src dst stackErr [] w = None"
| "copyInt src dst stackErr (r # rest) w =
     (case r of
        Inr v \<Rightarrow> Some (Inr v, rest, w)
      | Inl err \<Rightarrow>
          (case errorHandler err stackErr w of
             None \<Rightarrow> None
           | Some (Inl e, w') \<Rightarrow> Some (Inl e, rest, w')
           | Some (Inr u, w') \<Rightarrow> copyInt src dst stackErr rest w'))"

text \<open>
  \<^verbatim>\<open>copyAsync\<close>: \<open>copyAsync_check\<close> is the local \<^verbatim>\<open>check\<close>, resolved at once when the
  caller passes a truthy \<^verbatim>\<open>noSelfCopy\<close>.
\<close>

definition copyAsync_check :: "(string \<Rightarrow> stats settled) \<Rightarrow> string \<Rightarrow> string \<Rightarrow> copy_options option \<Rightarrow> unit settled" where
  "copyAsync_check statAsync src dst options =
     (case options of
        None \<Rightarrow> selfCopyCheck statAsync src dst
      | Some opts \<Rightarrow>
          if noSelfCopy opts = Some True then Inr ()
          else selfCopyCheck statAsync src dst)"

definition copyAsync :: "(string \<Rightarrow> stats settled) \<Rightarrow> string \<Rightarrow> string \<Rightarrow> copy_options option \<Rightarrow> string \<Rightarrow> unit attempts \<Rightarrow> world \<Rightarrow> (unit settled \<times> unit attempts \<times> world) option" where
  "copyAsync statAsync src dst options callSite copy w =
     (case copyAsync_check statAsync src dst options of
        Inl err \<Rightarrow> Some (Inl (restackErr err callSite), copy, w)
      | Inr u \<Rightarrow>
          (case copyInt src dst callSite copy w of
             None \<Rightarrow> None
           | Some (Inl err, rest, w') \<Rightarrow> Some (Inl (restackErr err callSite), rest, w')
           | Some (Inr v, rest, w') \<Rightarrow> Some (Inr v, rest, w')))"

text \<open>
  \<^verbatim>\<open>renameAsync\<close> / \<^verbatim>\<open>renameInt\<close>: on \<^verbatim>\<open>EPERM\<close> the destination is looked at first; the
  \<^verbatim>\<open>catch\<close> that closes that branch restacks every rejection that passes through it.
\<close>

fun renameInt :: "(string \<Rightarrow> stats settled) \<Rightarrow> string \<Rightarrow> string \<Rightarrow> string \<Rightarrow> unit attempts \<Rightarrow> world \<Rightarrow> (unit settled \<times> unit attempts \<times> world) option" where
  "renameInt statAsync sourcePath destinationPath stackErr [] w = None"
| "renameInt statAsync sourcePath destinationPath stackErr (r # rest) w =
     (case r of
        Inr v \<Rightarrow> Some (Inr (), rest, w)
      | Inl err \<Rightarrow>
          if code err = Some ''EPERM'' then
            (case statAsync destinationPath of
               Inl newErr \<Rightarrow> Some (Inl (restackErr newErr stackErr), rest, w)
             | Inr stat \<Rightarrow>
                 if isDirectory stat
                 then Some (Inl (restackErr (restackErr err stackErr) stackErr), rest, w)
                 else
                   (case errorHandler err stackErr w of
                      None \<Rightarrow> None
                    | Some (Inl e, w') \<Rightarrow> Some (Inl (restackErr e stackErr), rest, w')
                    | Some (Inr u, w') \<Rightarrow>
                        (case renameInt statAsync sourcePath destinationPath stackErr rest w' of
                           None \<Rightarrow> None
                         | Some (Inl e, rest', w'') \<Rightarrow>
                             Some (Inl (restackErr e stackErr), rest', w'')
                         | Some (Inr v, rest', w'') \<Rightarrow> Some (Inr v, rest', w''))))
          else
            (case errorHandler err stackErr w of
               None \<Rightarrow> None
             | Some (Inl e, w') \<Rightarrow> Some (Inl e, rest, w')
             | Some (Inr u, w') \<Rightarrow>
                 renameInt statAsync sourcePath destinationPath stackErr rest w'))"

definition renameAsync :: "(string \<Rightarrow> stats settled) \<Rightarrow> string \<Rightarrow> string \<Rightarrow> string \<Rightarrow> unit attempts \<Rightarrow> world \<Rightarrow> (unit settled \<times> unit attempts \<times> world) option" where
  "renameAsync statAsync sourcePath destinationPath callSite rename w =
     renameInt statAsync sourcePath destinationPath callSite rename w"

text \<open>
  The codes for which \<open>errorRepeat\<close> consults the user when a dialog exists (file busy,
  disk full, permission denied), and the box it shows for an error with such a code.
\<close>

definition prompting_codes :: "string option set" where
  "prompting_codes = {Some ''EBUSY'', Some ''ENOSPC'', Some ''EPERM''}"

definition prompt_of :: "error \<Rightarrow> world \<Rightarrow> message_box" where
  "prompt_of err w =
     (if code err = Some ''EBUSY'' then busyRetry_options (errorPath err) (wholocks w (errorPath err))
      else if code err = Some ''ENOSPC'' then nospcQuery_options
      else unlockConfirm_options (errorPath err) (wholocks w (errorPath err)))"

text \<open>The world after the user has answered one more box.\<close>

definition answered :: "message_box \<Rightarrow> world \<Rightarrow> world" where
  "answered box w = w\<lparr>choices := tl (choices w), shown := shown w @ [box]\<rparr>"

section \<open>Mod management: state, actions, effects\<close>

text \<open>
  A mod (\<^verbatim>\<open>IMod\<close>) with the fields the event handlers read: \<^verbatim>\<open>id\<close>, \<^verbatim>\<open>type\<close> (the empty
  string when it is unset: the code reads \<^verbatim>\<open>mod.type || ''\<close>), \<^verbatim>\<open>installationPath\<close> and
  the lifecycle \<^verbatim>\<open>state\<close>, a string.
\<close>

record imod =
  mod_id :: string
  mod_type :: string
  mod_installationPath :: string
  mod_state :: string

text \<open>
  \<^verbatim>\<open>state.settings.profiles.lastActiveProfile[gameMode]\<close> is either the profile id itself
  or an object with a field \<^verbatim>\<open>profileId\<close>.
\<close>

datatype last_active = ProfileName string | ProfileObject string

text \<open>
  The snapshot \<^verbatim>\<open>store.getState()\<close>, as far as it is read. A table of mods is an
  association list, so that \<^verbatim>\<open>Object.keys\<close> has an order. A profile is its \<^verbatim>\<open>modState\<close>
  table: the \<^verbatim>\<open>enabled\<close> flag of each mod that has one. Profiles are looked up by a
  possibly undefined id. \<open>discovered\<close> holds \<^verbatim>\<open>discovery.path\<close> of a discovered game
  (\<open>Some None\<close>: discovered, path undefined). The selectors \<^verbatim>\<open>activeGameId\<close> and
  \<^verbatim>\<open>installPathForGame\<close> are fields.
\<close>

record istate =
  persistent_mods :: "string \<Rightarrow> (string \<times> imod) list option"
  persistent_profiles :: "string option \<Rightarrow> (string \<Rightarrow> bool option) option"
  lastActiveProfile :: "string \<Rightarrow> last_active option"
  discovered :: "string \<Rightarrow> string option option"
  settings_activator :: "string \<Rightarrow> string option"
  activeGameId :: string
  installPathForGame :: "string \<Rightarrow> string"

text \<open>The actions the handlers dispatch to the store.\<close>

datatype action =
    SetModEnabled "string option" string bool
  | AddMod string imod
  | RemoveMod string string

text \<open>
  What an error notification shows: the message only (\<^verbatim>\<open>err.message\<close>) or the error.
\<close>

datatype notification_detail = MessageOnly message | WholeError error

text \<open>
  The effects of a handler, in the order they happen: an action dispatched, a step of
  the deployment method or of the activation store started, \<^verbatim>\<open>fs.removeAsync\<close> called on
  a path, the caller's callback called with an error or with \<^verbatim>\<open>null\<close> (\<open>None\<close>), an
  error notification (title, detail, \<^verbatim>\<open>allowReport\<close> if given;
  \<^verbatim>\<open>api.showErrorNotification\<close> and \<^verbatim>\<open>showError\<close> alike), an event emitted.
\<close>

datatype event =
    Dispatch action
  | GetNormalizeFunc "string option"
  | LoadActivation "string option"
  | Prepare string
  | Deactivate string string
  | Finalize string
  | SaveActivation string
  | FsRemove string
  | Callback "error option"
  | ShowErrorNotification string notification_detail "bool option"
  | Emit string

text \<open>The actions among the effects, in order.\<close>

fun dispatched :: "event list \<Rightarrow> action list" where
  "dispatched [] = []"
| "dispatched (Dispatch a # evs) = a # dispatched evs"
| "dispatched (ev # evs) = dispatched evs"

section \<open>undeploy\<close>

text \<open>
  A deployment method (\<^verbatim>\<open>IDeploymentMethod\<close>): its id, whether \<^verbatim>\<open>allTypesSupported\<close> finds
  nothing unsupported for the game, and the rejection, if any, of each of its three
  calls. The other collaborators of \<open>undeploy\<close> are given the same way:
  \<^verbatim>\<open>getGame(gameMode).getModPaths\<close> (every discovered game is taken to be known to
  \<^verbatim>\<open>getGame\<close>), \<^verbatim>\<open>getNormalizeFunc\<close>, \<^verbatim>\<open>loadActivation\<close> and \<^verbatim>\<open>saveActivation\<close>.
\<close>

record deployment_method =
  method_id :: string
  allTypesSupported :: bool
  prepare :: "error option"
  deactivate :: "error option"
  finalize :: "error option"

record deploy_env =
  getModPaths :: "string \<Rightarrow> string \<Rightarrow> string \<Rightarrow> string option"
  getNormalizeFunc :: "error option"
  loadActivation :: "error option"
  saveActivation :: "error option"

text \<open>
  A chain of \<^verbatim>\<open>then\<close>: each step starts when the one before it has resolved; the first
  rejection ends the chain.
\<close>

fun then_chain :: "(event \<times> error option) list \<Rightarrow> unit settled \<times> event list" where
  "then_chain [] = (Inr (), [])"
| "then_chain ((ev, Some err) # steps) = (Inl err, [ev])"
| "then_chain ((ev, None) # steps) = (case then_chain steps of (r, evs) \<Rightarrow> (r, ev # evs))"

definition undeploy :: "deploy_env \<Rightarrow> deployment_method list \<Rightarrow> string \<Rightarrow> imod \<Rightarrow> istate \<Rightarrow> unit settled \<times> event list" where
  "undeploy env activators gameMode mod' s =
     (case discovered s gameMode of
        None \<Rightarrow> (Inr (), [])
      | Some None \<Rightarrow> (Inr (), [])
      | Some (Some discoveryPath) \<Rightarrow>
          (let modPaths = getModPaths env gameMode discoveryPath;
               activatorId = settings_activator s gameMode;
               activator =
                 (case activatorId of
                    Some aid \<Rightarrow> List.find (\<lambda>act. method_id act = aid) activators
                  | None \<Rightarrow> List.find (\<lambda>act. allTypesSupported act) activators)
           in case activator of
                None \<Rightarrow> (Inl (new_ProcessCanceled ''No deployment method active''), [])
              | Some act \<Rightarrow>
                  (let dataPath = modPaths (mod_type mod')
                   in then_chain
                        [(GetNormalizeFunc dataPath, getNormalizeFunc env),
                         (LoadActivation dataPath, loadActivation env),
                         (Prepare (method_id act), prepare act),
                         (Deactivate (method_id act) (mod_id mod'), deactivate act),
                         (Finalize (method_id act), finalize act),
                         (SaveActivation (method_id act), saveActivation env)])))"

section \<open>onRemoveMod\<close>

text \<open>
  The locals of \<^verbatim>\<open>onRemoveMod\<close> that are read from the snapshot: the lifecycle state of
  the mod (\<^verbatim>\<open>getSafe\<close> with default undefined), the id of the last active profile of the
  game, and whether the mod is enabled there (\<^verbatim>\<open>getSafe\<close> with default false).
\<close>

definition modState_of :: "istate \<Rightarrow> string \<Rightarrow> string \<Rightarrow> string option" where
  "modState_of s gameMode modId =
     (case persistent_mods s gameMode of
        None \<Rightarrow> None
      | Some mods \<Rightarrow> map_option mod_state (map_of mods modId))"

definition lastActiveProfileId :: "istate \<Rightarrow> string \<Rightarrow> string option" where
  "lastActiveProfileId s gameMode =
     (case lastActiveProfile s gameMode of
        None \<Rightarrow> None
      | Some (ProfileName p) \<Rightarrow> Some p
      | Some (ProfileObject p) \<Rightarrow> Some p)"

definition wasEnabled :: "istate \<Rightarrow> string \<Rightarrow> string \<Rightarrow> bool" where
  "wasEnabled s gameMode modId =
     (case persistent_profiles s (lastActiveProfileId s gameMode) of
        None \<Rightarrow> False
      | Some modStates \<Rightarrow> (case modStates modId of None \<Rightarrow> False | Some enabled \<Rightarrow> enabled))"

text \<open>
  The three \<^verbatim>\<open>catch\<close> handlers that close the chain of \<^verbatim>\<open>onRemoveMod\<close>: with a callback
  the error goes to the callback; without one, a notification whose title and
  \<^verbatim>\<open>allowReport\<close> depend on the class of the error.
\<close>

definition onRemoveMod_catch :: "bool \<Rightarrow> error \<Rightarrow> event" where
  "onRemoveMod_catch callback err =
     (if cls err = TemporaryError then
        (if callback then Callback (Some err)
         else ShowErrorNotification ''Failed to undeploy mod, please try again''
                (MessageOnly (message err)) (Some False))
      else if cls err = ProcessCanceled then
        (if callback then Callback (Some err)
         else ShowErrorNotification ''Failed to remove mod'' (MessageOnly (message err)) (Some False))
      else
        (if callback then Callback (Some err)
         else ShowErrorNotification ''Failed to remove mod'' (WholeError err) None))"

text \<open>\<^verbatim>\<open>path.join\<close> of two segments that need no normalisation.\<close>

definition path_join :: "string \<Rightarrow> string \<Rightarrow> string" where
  "path_join a b = a @ ''/'' @ b"

text \<open>
  The head of the chain of \<^verbatim>\<open>onRemoveMod\<close>:
  \<^verbatim>\<open>wasEnabled ? undeploy(api, activators, gameMode, mod) : Promise.resolve()\<close>.
\<close>

definition undeployIfEnabled :: "deploy_env \<Rightarrow> deployment_method list \<Rightarrow> string \<Rightarrow> string \<Rightarrow> imod \<Rightarrow> istate \<Rightarrow> unit settled \<times> event list" where
  "undeployIfEnabled env activators gameMode modId mod' s =
     (if wasEnabled s gameMode modId then undeploy env activators gameMode mod' s
      else (Inr (), []))"

text \<open>
  \<^verbatim>\<open>onRemoveMod(api, activators, gameMode, modId, callback)\<close>. \<open>callback\<close> says whether one
  is given. \<open>rimraf\<close> and \<open>w\<close> are handed to \<open>removeAsync\<close> of the file-system layer. The
  result is the trace of effects with what is left of \<open>rimraf\<close> and the world. The
  \<^verbatim>\<open>TypeError\<close> of reading \<^verbatim>\<open>mods[modId]\<close> from an undefined table is the plain error
  caught by the \<^verbatim>\<open>try\<close>.
\<close>

definition onRemoveMod :: "deploy_env \<Rightarrow> deployment_method list \<Rightarrow> string \<Rightarrow> string \<Rightarrow> bool \<Rightarrow> istate \<Rightarrow> unit attempts \<Rightarrow> world \<Rightarrow> (event list \<times> unit attempts \<times> world) option" where
  "onRemoveMod env activators gameMode modId callback s rimraf w =
     (let modState = modState_of s gameMode modId
      in if modState \<noteq> Some ''downloaded'' \<and> modState \<noteq> Some ''installed'' then
           Some ((if callback
                  then [Callback (Some (new_ProcessCanceled
                                          ''Can't delete mod during download or install''))]
                  else []), rimraf, w)
         else
           (let profileId = lastActiveProfileId s gameMode;
                disable = Dispatch (SetModEnabled profileId modId False);
                installationPath = installPathForGame s gameMode
            in case persistent_mods s gameMode of
                 None \<Rightarrow>
                   Some ([disable,
                          (if callback then Callback (Some (new_Error (Text ''TypeError'')))
                           else ShowErrorNotification ''Failed to remove mod''
                                  (WholeError (new_Error (Text ''TypeError''))) None)],
                         rimraf, w)
               | Some mods \<Rightarrow>
                   (case map_of mods modId of
                      None \<Rightarrow> Some (disable # (if callback then [Callback None] else []), rimraf, w)
                    | Some mod' \<Rightarrow>
                        (case undeployIfEnabled env activators gameMode modId mod' s of
                           (Inl err, undeployed) \<Rightarrow>
                             Some (disable # undeployed @ [onRemoveMod_catch callback err],
                                   rimraf, w)
                         | (Inr u, undeployed) \<Rightarrow>
                             (let target = path_join installationPath (mod_installationPath mod')
                              in case removeAsync target ''onRemoveMod'' rimraf w of
                                   None \<Rightarrow> None
                                 | Some (removed, rimraf', w') \<Rightarrow>
                                     (case (case removed of
                                              Inl err \<Rightarrow>
                                                if code err = Some ''ENOENT'' then Inr ()
                                                else Inl err
                                            | Inr v \<Rightarrow> Inr v) of
                                        Inl err \<Rightarrow>
                                          Some (disable # undeployed
                                                  @ [FsRemove target, onRemoveMod_catch callback err],
                                                rimraf', w')
                                      | Inr v \<Rightarrow>
                                          Some (disable # undeployed
                                                  @ [FsRemove target,
                                                     Dispatch (RemoveMod gameMode (mod_id mod'))]
                                                  @ (if callback then [Callback None] else []),
                                                rimraf', w')))))))"

section \<open>Reconciliation\<close>

text \<open>
  Modelled from the spec: \<^verbatim>\<open>refreshMods\<close> (\<^verbatim>\<open>util/refreshMods\<close>, imported by the handlers
  but not among the sources). The spec says that it compares the known mods with what
  is physically present in the staging directory, reports the mods present on disk but
  unknown as newly discovered, and reports the known mods now missing from disk as
  removed. \<open>disk\<close> is the outcome of reading the staging directory, \<open>discover\<close> the mod
  record made for a directory found there; the two callbacks are those of its caller.
\<close>

definition refreshMods :: "string list settled \<Rightarrow> string list \<Rightarrow> (string \<Rightarrow> imod) \<Rightarrow> (imod \<Rightarrow> event list) \<Rightarrow> (string list \<Rightarrow> event list) \<Rightarrow> unit settled \<times> event list" where
  "refreshMods disk knownMods discover onAddMod onRemoveMods =
     (case disk of
        Inl err \<Rightarrow> (Inl err, [])
      | Inr present \<Rightarrow>
          (Inr (),
           concat (map (\<lambda>name. onAddMod (discover name))
                     (filter (\<lambda>name. name \<notin> set knownMods) present))
           @ onRemoveMods (filter (\<lambda>name. name \<notin> set present) knownMods)))"

text \<open>
  The second callback both handlers pass to \<^verbatim>\<open>refreshMods\<close>: of the names reported as
  removed, those whose known state is \<^verbatim>\<open>downloaded\<close> or \<^verbatim>\<open>installed\<close> are removed from
  the store. (A reported name is a key of \<open>knownMods\<close>; for any other name the source
  would throw.)
\<close>

definition removeMissing :: "string \<Rightarrow> (string \<times> imod) list \<Rightarrow> string list \<Rightarrow> event list" where
  "removeMissing gameId knownMods modNames =
     concat (map (\<lambda>name.
                    case map_of knownMods name of
                      None \<Rightarrow> []
                    | Some known \<Rightarrow>
                        if mod_state known = ''downloaded'' \<or> mod_state known = ''installed''
                        then [Dispatch (RemoveMod gameId name)]
                        else [])
               modNames)"

text \<open>
  \<^verbatim>\<open>onGameModeActivated(api, activators, newGame)\<close>. The handler returns at once, with no
  effect, when the active game (\<^verbatim>\<open>activeGameId(state)\<close>) is not discovered, when its
  discovery has no path, or when \<^verbatim>\<open>getGame(gameId)\<close> is undefined; \<open>getGame\<close> says for
  which ids \<^verbatim>\<open>getGame\<close> is defined. Otherwise it builds \<^verbatim>\<open>activatorProm\<close> (the check of
  the staging folder, the purge with the former deployment method and the choice of a
  new one, lines 58 to 130), which is given here by how it settles: the effects of
  building it are not part of the trace, and the trace starts where \<^verbatim>\<open>refreshMods\<close> is
  chained to it. The mods refreshed are those of \<^verbatim>\<open>newGame\<close>.
\<close>

definition onGameModeActivated :: "(string \<Rightarrow> bool) \<Rightarrow> string \<Rightarrow> istate \<Rightarrow> unit settled \<Rightarrow> string list settled \<Rightarrow> (string \<Rightarrow> imod) \<Rightarrow> event list" where
  "onGameModeActivated getGame newGame s activatorProm disk discover =
     (let gameId = activeGameId s
      in case discovered s gameId of
           None \<Rightarrow> []
         | Some None \<Rightarrow> []
         | Some (Some discoveryPath) \<Rightarrow>
             if \<not> getGame gameId then []
             else
               (let knownMods =
                      (case persistent_mods s newGame of None \<Rightarrow> [] | Some mods \<Rightarrow> mods);
                    failed =
                      (\<lambda>err. if cls err = UserCanceled then []
                             else [ShowErrorNotification ''Failed to refresh mods''
                                     (WholeError err) (Some (code err \<noteq> Some ''ENOENT''))])
                in case activatorProm of
                     Inl err \<Rightarrow> failed err
                   | Inr u \<Rightarrow>
                       (case refreshMods disk (map fst knownMods) discover
                               (\<lambda>mod'. [Dispatch (AddMod newGame mod')])
                               (removeMissing newGame knownMods) of
                          (Inl err, evs) \<Rightarrow> evs @ failed err
                        | (Inr v, evs) \<Rightarrow> evs @ [Emit ''mods-refreshed''])))"

text \<open>
  \<^verbatim>\<open>onPathsChanged(api, previous, current)\<close>: the staging path of the active game has
  changed.
\<close>

definition onPathsChanged :: "(string \<Rightarrow> string option) \<Rightarrow> (string \<Rightarrow> string option) \<Rightarrow> istate \<Rightarrow> string list settled \<Rightarrow> (string \<Rightarrow> imod) \<Rightarrow> event list" where
  "onPathsChanged previous current s disk discover =
     (let gameMode = activeGameId s
      in if previous gameMode \<noteq> current gameMode then
           (let knownMods = (case persistent_mods s gameMode of None \<Rightarrow> [] | Some mods \<Rightarrow> mods)
            in case refreshMods disk (map fst knownMods) discover
                      (\<lambda>mod'. [Dispatch (AddMod gameMode mod')])
                      (removeMissing gameMode knownMods) of
                 (Inl err, evs) \<Rightarrow>
                   evs @ [ShowErrorNotification ''Failed to refresh mods'' (WholeError err) None]
               | (Inr v, evs) \<Rightarrow> evs)
         else [])"

section \<open>Sample inputs\<close>

text \<open>A failure of the underlying call with errno code \<open>c\<close> on path \<open>p\<close>.\<close>

definition os_error :: "string \<Rightarrow> string \<Rightarrow> error" where
  "os_error c p =
     \<lparr>cls = ErrnoException, code = Some c, path = Some p, dest = None,
      message = Text c, stack = None\<rparr>"

text \<open>
  A world with a dialog, whose user will answer with the given button indices, where no
  process holds any file and the elevated helper ends with the given events.
\<close>

definition user_world :: "nat list \<Rightarrow> elevated_event list \<Rightarrow> world" where
  "user_world cs evs =
     \<lparr>dialog = True, choices = cs, shown = [], wholocks = (\<lambda>p. []), helper = evs,
      logged = []\<rparr>"

text \<open>The same world, but where a process holds every file.\<close>

definition locked_world :: "nat list \<Rightarrow> world" where
  "locked_world cs =
     \<lparr>dialog = True, choices = cs, shown = [], wholocks = (\<lambda>p. [(''game.exe'', 4242)]),
      helper = [], logged = []\<rparr>"

text \<open>
  A file system with two distinct files \<^verbatim>\<open>/a\<close> and \<^verbatim>\<open>/b\<close>, a link \<^verbatim>\<open>/a2\<close> to the
  first, a directory \<^verbatim>\<open>/d\<close>, and nothing else.
\<close>

definition sample_stat :: "string \<Rightarrow> stats settled" where
  "sample_stat p =
     (if p = ''/a'' \<or> p = ''/a2'' then Inr \<lparr>ino = 11, isDirectory = False\<rparr>
      else if p = ''/b'' then Inr \<lparr>ino = 12, isDirectory = False\<rparr>
      else if p = ''/d'' then Inr \<lparr>ino = 13, isDirectory = True\<rparr>
      else Inl (os_error ''ENOENT'' p))"

text \<open>
  A store for the game \<^verbatim>\<open>skyrim\<close> with three known mods, \<^verbatim>\<open>A\<close> and \<^verbatim>\<open>C\<close> installed and
  \<^verbatim>\<open>B\<close> downloading; \<^verbatim>\<open>A\<close> is enabled in the last active profile \<^verbatim>\<open>p1\<close>. The game is
  discovered and its configured deployment method is \<^verbatim>\<open>hardlink\<close>.
\<close>

definition sample_mod :: "string \<Rightarrow> string \<Rightarrow> imod" where
  "sample_mod name st =
     \<lparr>mod_id = name, mod_type = [], mod_installationPath = name, mod_state = st\<rparr>"

definition sample_state :: istate where
  "sample_state =
     \<lparr>persistent_mods =
        (\<lambda>g. if g = ''skyrim''
              then Some [(''A'', sample_mod ''A'' ''installed''),
                         (''B'', sample_mod ''B'' ''downloading''),
                         (''C'', sample_mod ''C'' ''installed'')]
              else None),
      persistent_profiles =
        (\<lambda>p. if p = Some ''p1'' then Some (\<lambda>m. if m = ''A'' then Some True else None)
              else None),
      lastActiveProfile = (\<lambda>g. if g = ''skyrim'' then Some (ProfileName ''p1'') else None),
      discovered = (\<lambda>g. if g = ''skyrim'' then Some (Some ''/games/skyrim'') else None),
      settings_activator = (\<lambda>g. if g = ''skyrim'' then Some ''hardlink'' else None),
      activeGameId = ''skyrim'',
      installPathForGame = (\<lambda>g. ''/staging'')\<rparr>"

definition sample_env :: deploy_env where
  "sample_env =
     \<lparr>getModPaths = (\<lambda>g p t. if t = [] then Some (p @ ''/data'') else None),
      getNormalizeFunc = None, loadActivation = None, saveActivation = None\<rparr>"

text \<open>The method \<^verbatim>\<open>hardlink\<close>, whose \<^verbatim>\<open>deactivate\<close> rejects with the given error, if any.\<close>

definition sample_method :: "error option \<Rightarrow> deployment_method" where
  "sample_method failure =
     \<lparr>method_id = ''hardlink'', allTypesSupported = True, prepare = None,
      deactivate = failure, finalize = None\<rparr>"

text \<open>The world after the user has answered retry to the prompts of the errors \<open>errs\<close>.\<close>

definition retried :: "error list \<Rightarrow> nat list \<Rightarrow> world \<Rightarrow> world" where
  "retried errs cs w = w\<lparr>choices := cs, shown := shown w @ map (\<lambda>e. prompt_of e w) errs\<rparr>"

section \<open>Basic facts about errors\<close>

lemma restackErr_idem: "restackErr (restackErr e s) s = restackErr e s"
  by (simp add: restackErr_def)

lemma code_restackErr: "code (restackErr e s) = code e"
  by (simp add: restackErr_def)

lemma cls_restackErr: "cls (restackErr e s) = cls e"
  by (simp add: restackErr_def)

lemma stack_restackErr: "stack (restackErr e s) = Some s"
  by (simp add: restackErr_def)

lemma code_new_UserCanceled: "code new_UserCanceled = None"
  by (simp add: new_UserCanceled_def)

lemma busyRetry_Inl: "busyRetry fp w = Some (Inl e, w') \<Longrightarrow> e = new_UserCanceled"
  by (auto simp: busyRetry_def Let_def split: if_splits option.splits)

lemma nospcQuery_Inl: "nospcQuery w = Some (Inl e, w') \<Longrightarrow> e = new_UserCanceled"
  by (auto simp: nospcQuery_def split: if_splits option.splits)

lemma unlockConfirm_Inl: "unlockConfirm fp w = Some (Inl e, w') \<Longrightarrow> e = new_UserCanceled"
  by (auto simp: unlockConfirm_def Let_def split: if_splits option.splits)

lemma errorRepeat_Inl:
  "errorRepeat err fp w = Some (Inl e, w') \<Longrightarrow> e = err \<or> e = new_UserCanceled"
  by (auto simp: errorRepeat_def split: if_splits option.splits sum.splits
           dest: busyRetry_Inl nospcQuery_Inl unlockConfirm_Inl)

lemma errorHandler_Inl:
  "errorHandler err s w = Some (Inl e, w') \<Longrightarrow>
     e = restackErr err s \<or> e = restackErr new_UserCanceled s"
  by (auto simp: errorHandler_def restackErr_idem split: if_splits option.splits sum.splits
           dest: errorRepeat_Inl)

lemma errorHandler_Inl_code:
  "errorHandler err s w = Some (Inl e, w') \<Longrightarrow> code e = code err \<or> code e = None"
  by (auto dest!: errorHandler_Inl simp: code_restackErr code_new_UserCanceled)

section \<open>Idempotent deletion\<close>

lemma removeInt_not_found_hidden:
  "removeInt p s rs w = Some (Inl e, rs', w') \<Longrightarrow> code e \<noteq> Some ''ENOENT''"
proof (induction rs arbitrary: w)
  case Nil
  then show ?case by simp
next
  case (Cons r rs)
  show ?case
  proof (cases r)
    case (Inr v)
    with Cons.prems show ?thesis by simp
  next
    case (Inl err)
    with Cons.prems have ne: "code err \<noteq> Some ''ENOENT''"
      by (auto split: if_splits)
    from Cons.prems Inl ne obtain r1 w1 where h: "errorHandler err s w = Some (r1, w1)"
      by (auto split: option.splits)
    show ?thesis
    proof (cases r1)
      case (Inl e1)
      with Cons.prems \<open>r = Inl err\<close> ne h have "e = e1" by simp
      with h Inl ne show ?thesis
        using errorHandler_Inl_code [of err s w e1 w1] by auto
    next
      case (Inr u)
      with Cons.prems \<open>r = Inl err\<close> ne h
      have "removeInt p s rs w1 = Some (Inl e, rs', w')" by simp
      then show ?thesis by (rule Cons.IH)
    qed
  qed
qed

lemma unlinkInt_not_found_hidden:
  "unlinkInt p s rs w = Some (Inl e, rs', w') \<Longrightarrow> code e \<noteq> Some ''ENOENT''"
proof (induction rs arbitrary: w)
  case Nil
  then show ?case by simp
next
  case (Cons r rs)
  show ?case
  proof (cases r)
    case (Inr v)
    with Cons.prems show ?thesis by simp
  next
    case (Inl err)
    with Cons.prems have ne: "code err \<noteq> Some ''ENOENT''"
      by (auto split: if_splits)
    from Cons.prems Inl ne obtain r1 w1 where h: "errorHandler err s w = Some (r1, w1)"
      by (auto split: option.splits)
    show ?thesis
    proof (cases r1)
      case (Inl e1)
      with Cons.prems \<open>r = Inl err\<close> ne h have "e = e1" by simp
      with h Inl ne show ?thesis
        using errorHandler_Inl_code [of err s w e1 w1] by auto
    next
      case (Inr u)
      with Cons.prems \<open>r = Inl err\<close> ne h
      have "unlinkInt p s rs w1 = Some (Inl e, rs', w')" by simp
      then show ?thesis by (rule Cons.IH)
    qed
  qed
qed

lemma rmdirInt_not_found_hidden:
  "rmdirInt p s n rs = Some (Inl e, rs', d) \<Longrightarrow> code e \<noteq> Some ''ENOENT''"
proof (induction rs arbitrary: n d)
  case Nil
  then show ?case by simp
next
  case (Cons r rs)
  then show ?case
    by (auto simp: code_restackErr split: sum.splits if_splits option.splits)
qed

text \<open>
  Claim C3. For every path, \<open>removeAsync\<close>, \<open>unlinkAsync\<close> and \<open>rmdirAsync\<close> resolve
  when the underlying call reports that the target does not exist (any error whose code
  is \<^verbatim>\<open>ENOENT\<close>): no prompt is shown, nothing is waited for and no further call is made.
  And whatever the underlying call and the user do, an error these three operations
  reject with never carries the code \<^verbatim>\<open>ENOENT\<close>.
\<close>

theorem delete_of_absent_target_succeeds:
  "removeAsync p site (Inl (err\<lparr>code := Some ''ENOENT''\<rparr>) # rest) w = Some (Inr (), rest, w)
   \<and> unlinkAsync p site (Inl (err\<lparr>code := Some ''ENOENT''\<rparr>) # rest) w = Some (Inr (), rest, w)
   \<and> rmdirAsync p site (Inl (err\<lparr>code := Some ''ENOENT''\<rparr>) # rest) = Some (Inr (), rest, 0)
   \<and> (\<forall>e rs w'. removeAsync p site rimraf w = Some (Inl e, rs, w') \<longrightarrow> code e \<noteq> Some ''ENOENT'')
   \<and> (\<forall>e rs w'. unlinkAsync p site unlink w = Some (Inl e, rs, w') \<longrightarrow> code e \<noteq> Some ''ENOENT'')
   \<and> (\<forall>e rs d. rmdirAsync p site rmdir = Some (Inl e, rs, d) \<longrightarrow> code e \<noteq> Some ''ENOENT'')"
  using removeInt_not_found_hidden unlinkInt_not_found_hidden rmdirInt_not_found_hidden
  by (simp add: removeAsync_def unlinkAsync_def rmdirAsync_def)

theorem delete_of_absent_target_succeeds_witness:
  "removeAsync ''/staging/m'' ''caller'' [Inl (os_error ''ENOENT'' ''/staging/m'')] (user_world [] [])
     = Some (Inr (), [], user_world [] [])
   \<and> unlinkAsync ''/staging/m'' ''caller'' [Inl (os_error ''ENOENT'' ''/staging/m'')] (user_world [] [])
     = Some (Inr (), [], user_world [] [])
   \<and> rmdirAsync ''/staging/m'' ''caller'' [Inl (os_error ''ENOENT'' ''/staging/m'')]
     = Some (Inr (), [], 0)
   \<and> removeAsync ''/staging/m'' ''caller'' [Inl (os_error ''EIO'' ''/staging/m'')] (user_world [] [])
     = Some (Inl (restackErr (os_error ''EIO'' ''/staging/m'') ''caller''), [], user_world [] [])
   \<and> unlinkAsync ''/staging/m'' ''caller'' [Inl (os_error ''EIO'' ''/staging/m'')] (user_world [] [])
     = Some (Inl (restackErr (os_error ''EIO'' ''/staging/m'') ''caller''), [], user_world [] [])
   \<and> rmdirAsync ''/staging/m'' ''caller'' [Inl (os_error ''EIO'' ''/staging/m'')]
     = Some (Inl (restackErr (os_error ''EIO'' ''/staging/m'') ''caller''), [], 0)
   \<and> code (restackErr (os_error ''EIO'' ''/staging/m'') ''caller'') \<noteq> Some ''ENOENT''"
proof -
  have run:
    "removeAsync ''/staging/m'' ''caller'' [Inl (os_error ''EIO'' ''/staging/m'')] (user_world [] [])
       = Some (Inl (restackErr (os_error ''EIO'' ''/staging/m'') ''caller''), [], user_world [] [])"
    "unlinkAsync ''/staging/m'' ''caller'' [Inl (os_error ''EIO'' ''/staging/m'')] (user_world [] [])
       = Some (Inl (restackErr (os_error ''EIO'' ''/staging/m'') ''caller''), [], user_world [] [])"
    "rmdirAsync ''/staging/m'' ''caller'' [Inl (os_error ''EIO'' ''/staging/m'')]
       = Some (Inl (restackErr (os_error ''EIO'' ''/staging/m'') ''caller''), [], 0)"
    by (simp_all add: removeAsync_def unlinkAsync_def rmdirAsync_def errorHandler_def
          errorRepeat_def errorPath_def os_error_def restackErr_def retry_code_def RETRY_ERRORS_def)
  have absent: "os_error ''ENOENT'' ''/staging/m'' = (os_error ''ENOENT'' ''/staging/m'')\<lparr>code := Some ''ENOENT''\<rparr>"
    by (simp add: os_error_def)
  note inst = delete_of_absent_target_succeeds
    [where p = "''/staging/m''" and site = "''caller''" and err = "os_error ''ENOENT'' ''/staging/m''"
       and rest = "[]" and w = "user_world [] []"
       and rimraf = "[Inl (os_error ''EIO'' ''/staging/m'')]"
       and unlink = "[Inl (os_error ''EIO'' ''/staging/m'')]"
       and rmdir = "[Inl (os_error ''EIO'' ''/staging/m'')]"]
  from inst run absent show ?thesis by metis
qed

section \<open>Answers to the recovery prompt\<close>

lemma errorHandler_cancel:
  assumes "dialog w" and "choices w = 0 # cs" and "code err \<in> prompting_codes"
  shows "errorHandler err s w = Some (Inl (restackErr new_UserCanceled s), answered (prompt_of err w) w)"
  using assms
  by (auto simp: errorHandler_def errorRepeat_def busyRetry_def nospcQuery_def unlockConfirm_def
        showMessageBox_def prompting_codes_def prompt_of_def answered_def Let_def)

lemma errorHandler_retry:
  assumes "dialog w" and "choices w = 1 # cs" and "code err \<in> prompting_codes"
  shows "errorHandler err s w = Some (Inr (), answered (prompt_of err w) w)"
  using assms
  by (auto simp: errorHandler_def errorRepeat_def busyRetry_def nospcQuery_def unlockConfirm_def
        showMessageBox_def prompting_codes_def prompt_of_def answered_def Let_def)

lemma answered_simps:
  "dialog (answered b w) = dialog w"
  "choices (answered b w) = tl (choices w)"
  "shown (answered b w) = shown w @ [b]"
  "wholocks (answered b w) = wholocks w"
  "helper (answered b w) = helper w"
  by (simp_all add: answered_def)

lemma prompt_of_answered: "prompt_of e (answered b w) = prompt_of e w"
  by (simp add: prompt_of_def answered_def)

lemma enoent_not_prompting: "code err \<in> prompting_codes \<Longrightarrow> code err \<noteq> Some ''ENOENT''"
  by (auto simp: prompting_codes_def)

lemma retried_Nil: "choices w = cs \<Longrightarrow> retried [] cs w = w"
  by (simp add: retried_def)

lemma retried_Cons: "retried errs cs (answered (prompt_of e w) w) = retried (e # errs) cs w"
  by (simp add: retried_def answered_def prompt_of_def)

lemma retry_step:
  assumes "dialog w" and "\<forall>e\<in>set (e # errs). code e \<in> prompting_codes"
    and "choices w = replicate (length (e # errs)) 1 @ cs"
  shows "errorHandler e s w = Some (Inr (), answered (prompt_of e w) w)"
    and "dialog (answered (prompt_of e w) w)"
    and "\<forall>e\<in>set errs. code e \<in> prompting_codes"
    and "choices (answered (prompt_of e w) w) = replicate (length errs) 1 @ cs"
    and "code e \<noteq> Some ''ENOENT''"
proof -
  from assms show "errorHandler e s w = Some (Inr (), answered (prompt_of e w) w)"
    by (intro errorHandler_retry [where cs = "replicate (length errs) 1 @ cs"]) auto
  from assms show "dialog (answered (prompt_of e w) w)"
    "\<forall>e\<in>set errs. code e \<in> prompting_codes"
    "choices (answered (prompt_of e w) w) = replicate (length errs) 1 @ cs"
    "code e \<noteq> Some ''ENOENT''"
    by (simp_all add: answered_simps enoent_not_prompting)
qed

lemma wrapper_converges:
  "dialog w \<Longrightarrow> \<forall>e\<in>set errs. code e \<in> prompting_codes \<Longrightarrow>
   choices w = replicate (length errs) 1 @ cs \<Longrightarrow>
   wrapper s (map Inl errs @ Inr v # rest) w = Some (Inr v, rest, retried errs cs w)"
proof (induction errs arbitrary: w)
  case Nil
  then show ?case by (simp add: retried_Nil)
next
  case (Cons e errs)
  note st = retry_step [OF Cons.prems]
  from Cons.IH [OF st(2,3,4)] st(1) show ?case
    by (simp add: retried_Cons)
qed

lemma copyInt_converges:
  "dialog w \<Longrightarrow> \<forall>e\<in>set errs. code e \<in> prompting_codes \<Longrightarrow>
   choices w = replicate (length errs) 1 @ cs \<Longrightarrow>
   copyInt src dst s (map Inl errs @ Inr v # rest) w = Some (Inr v, rest, retried errs cs w)"
proof (induction errs arbitrary: w)
  case Nil
  then show ?case by (simp add: retried_Nil)
next
  case (Cons e errs)
  note st = retry_step [OF Cons.prems]
  from Cons.IH [OF st(2,3,4)] st(1) show ?case
    by (simp add: retried_Cons)
qed

lemma removeInt_converges:
  "dialog w \<Longrightarrow> \<forall>e\<in>set errs. code e \<in> prompting_codes \<Longrightarrow>
   choices w = replicate (length errs) 1 @ cs \<Longrightarrow>
   removeInt p s (map Inl errs @ Inr v # rest) w = Some (Inr (), rest, retried errs cs w)"
proof (induction errs arbitrary: w)
  case Nil
  then show ?case by (simp add: retried_Nil)
next
  case (Cons e errs)
  note st = retry_step [OF Cons.prems]
  from Cons.IH [OF st(2,3,4)] st(1,5) show ?case
    by (simp add: retried_Cons)
qed

lemma unlinkInt_converges:
  "dialog w \<Longrightarrow> \<forall>e\<in>set errs. code e \<in> prompting_codes \<Longrightarrow>
   choices w = replicate (length errs) 1 @ cs \<Longrightarrow>
   unlinkInt p s (map Inl errs @ Inr v # rest) w = Some (Inr (), rest, retried errs cs w)"
proof (induction errs arbitrary: w)
  case Nil
  then show ?case by (simp add: retried_Nil)
next
  case (Cons e errs)
  note st = retry_step [OF Cons.prems]
  from Cons.IH [OF st(2,3,4)] st(1,5) show ?case
    by (simp add: retried_Cons)
qed

lemma renameInt_converges:
  "dialog w \<Longrightarrow> \<forall>e\<in>set errs. code e \<in> prompting_codes \<Longrightarrow>
   choices w = replicate (length errs) 1 @ cs \<Longrightarrow>
   \<forall>e\<in>set errs. code e = Some ''EPERM'' \<longrightarrow> (\<exists>st. statAsync dst = Inr st \<and> \<not> isDirectory st) \<Longrightarrow>
   renameInt statAsync src dst s (map Inl errs @ Inr v # rest) w
     = Some (Inr (), rest, retried errs cs w)"
proof (induction errs arbitrary: w)
  case Nil
  then show ?case by (simp add: retried_Nil)
next
  case (Cons e errs)
  note st = retry_step [OF Cons.prems(1,2,3)]
  from Cons.prems(4)
  have rest_ok: "\<forall>e\<in>set errs. code e = Some ''EPERM'' \<longrightarrow> (\<exists>st. statAsync dst = Inr st \<and> \<not> isDirectory st)"
    by simp
  note ih = Cons.IH [OF st(2,3,4) rest_ok]
  show ?case
  proof (cases "code e = Some ''EPERM''")
    case True
    with Cons.prems(4) obtain st' where "statAsync dst = Inr st'" "\<not> isDirectory st'"
      by auto
    with True ih st(1) show ?thesis by (simp add: retried_Cons)
  next
    case False
    with ih st(1) show ?thesis by (simp add: retried_Cons)
  qed
qed

lemma rmdirInt_succeeds:
  "length errs \<le> n \<Longrightarrow> \<forall>e\<in>set errs. retry_code e \<Longrightarrow>
   rmdirInt p s n (map Inl errs @ Inr v # rest) = Some (Inr (), rest, length errs * RETRY_DELAY_MS)"
proof (induction errs arbitrary: n)
  case Nil
  then show ?case by simp
next
  case (Cons e errs)
  then obtain m where n: "n = Suc m" by (cases n) auto
  from Cons.prems have "code e \<noteq> Some ''ENOENT''"
    by (auto simp: retry_code_def RETRY_ERRORS_def split: option.splits)
  with Cons.prems Cons.IH [of m] n show ?case by simp
qed

lemma rmdirInt_gives_up:
  "length errs = n \<Longrightarrow> \<forall>e\<in>set (errs @ [e']). retry_code e \<Longrightarrow>
   rmdirInt p s n (map Inl errs @ Inl e' # rest)
     = Some (Inl (restackErr e' s), rest, n * RETRY_DELAY_MS)"
proof (induction errs arbitrary: n)
  case Nil
  then show ?case
    by (auto simp: retry_code_def RETRY_ERRORS_def split: option.splits)
next
  case (Cons e errs)
  then obtain m where n: "n = Suc m" by (cases n) auto
  from Cons.prems have "code e \<noteq> Some ''ENOENT''"
    by (auto simp: retry_code_def RETRY_ERRORS_def split: option.splits)
  with Cons.prems Cons.IH [of m] n show ?case by simp
qed

section \<open>Cancellation\<close>

lemma cls_new_UserCanceled: "cls new_UserCanceled = UserCanceled"
  by (simp add: new_UserCanceled_def)

text \<open>
  Claim C1. Take any operation of the layer that reports its failures to the user: a
  wrapper made by \<open>genWrapperAsync\<close>, \<open>removeAsync\<close>, \<open>unlinkAsync\<close>, \<open>copyAsync\<close> (once
  its self-copy check has passed) and \<open>renameAsync\<close> (which on \<^verbatim>\<open>EPERM\<close> asks only when
  the destination exists and is no directory). If the first attempt fails with a code
  the user is asked about and the first answer is button 0 (cancel), the call rejects
  with the \<^verbatim>\<open>UserCanceled\<close> raised by the prompt, restacked to the call site and otherwise
  unchanged: it is not the error of the operating system, exactly one box has been
  shown, and no further attempt is made.
\<close>

theorem cancel_rejects_with_UserCanceled:
  assumes "dialog w" and "choices w = 0 # cs" and "code err \<in> prompting_codes"
  shows
    "genWrapperAsync (Inl err # rest) site w
       = Some (Inl (restackErr new_UserCanceled site), rest, answered (prompt_of err w) w)
     \<and> removeAsync p site (Inl err # left) w
       = Some (Inl (restackErr new_UserCanceled site), left, answered (prompt_of err w) w)
     \<and> unlinkAsync p site (Inl err # left) w
       = Some (Inl (restackErr new_UserCanceled site), left, answered (prompt_of err w) w)
     \<and> (copyAsync_check statAsync src dst options = Inr () \<longrightarrow>
         copyAsync statAsync src dst options site (Inl err # left) w
           = Some (Inl (restackErr new_UserCanceled site), left, answered (prompt_of err w) w))
     \<and> ((code err = Some ''EPERM'' \<longrightarrow> (\<exists>st. statAsync dst = Inr st \<and> \<not> isDirectory st)) \<longrightarrow>
         renameAsync statAsync src dst site (Inl err # left) w
           = Some (Inl (restackErr new_UserCanceled site), left, answered (prompt_of err w) w))
     \<and> cls (restackErr new_UserCanceled site) = UserCanceled
     \<and> restackErr new_UserCanceled site \<noteq> restackErr err site"
proof -
  note h = errorHandler_cancel [OF assms, of site]
  from assms(3) have ne: "code err \<noteq> Some ''ENOENT''"
    by (rule enoent_not_prompting)
  have "genWrapperAsync (Inl err # rest) site w
       = Some (Inl (restackErr new_UserCanceled site), rest, answered (prompt_of err w) w)"
    using h by (simp add: genWrapperAsync_def)
  moreover have "removeAsync p site (Inl err # left) w
       = Some (Inl (restackErr new_UserCanceled site), left, answered (prompt_of err w) w)"
    using h ne by (simp add: removeAsync_def)
  moreover have "unlinkAsync p site (Inl err # left) w
       = Some (Inl (restackErr new_UserCanceled site), left, answered (prompt_of err w) w)"
    using h ne by (simp add: unlinkAsync_def)
  moreover have "copyAsync_check statAsync src dst options = Inr () \<longrightarrow>
         copyAsync statAsync src dst options site (Inl err # left) w
           = Some (Inl (restackErr new_UserCanceled site), left, answered (prompt_of err w) w)"
    using h by (simp add: copyAsync_def restackErr_idem)
  moreover have "(code err = Some ''EPERM'' \<longrightarrow> (\<exists>st. statAsync dst = Inr st \<and> \<not> isDirectory st)) \<longrightarrow>
         renameAsync statAsync src dst site (Inl err # left) w
           = Some (Inl (restackErr new_UserCanceled site), left, answered (prompt_of err w) w)"
    using h by (auto simp: renameAsync_def restackErr_idem)
  moreover have "cls (restackErr new_UserCanceled site) = UserCanceled"
    by (simp add: cls_restackErr cls_new_UserCanceled)
  moreover have "restackErr new_UserCanceled site \<noteq> restackErr err site"
  proof
    assume "restackErr new_UserCanceled site = restackErr err site"
    then have "code (restackErr new_UserCanceled site) = code (restackErr err site)" by simp
    then have "code err = None" by (simp add: code_restackErr code_new_UserCanceled)
    with assms(3) show False by (simp add: prompting_codes_def)
  qed
  ultimately show ?thesis by blast
qed

theorem cancel_rejects_with_UserCanceled_witness:
  "genWrapperAsync (Inl (os_error ''EPERM'' ''/a'') # [Inr (5::nat)]) ''caller'' (user_world [0] [])
       = Some (Inl (restackErr new_UserCanceled ''caller''), [Inr 5],
               answered (prompt_of (os_error ''EPERM'' ''/a'') (user_world [0] [])) (user_world [0] []))
   \<and> removeAsync ''/a'' ''caller'' (Inl (os_error ''EPERM'' ''/a'') # [Inr ()]) (user_world [0] [])
       = Some (Inl (restackErr new_UserCanceled ''caller''), [Inr ()],
               answered (prompt_of (os_error ''EPERM'' ''/a'') (user_world [0] [])) (user_world [0] []))
   \<and> unlinkAsync ''/a'' ''caller'' (Inl (os_error ''EPERM'' ''/a'') # [Inr ()]) (user_world [0] [])
       = Some (Inl (restackErr new_UserCanceled ''caller''), [Inr ()],
               answered (prompt_of (os_error ''EPERM'' ''/a'') (user_world [0] [])) (user_world [0] []))
   \<and> copyAsync sample_stat ''/a'' ''/b'' None ''caller'' (Inl (os_error ''EPERM'' ''/a'') # [Inr ()])
         (user_world [0] [])
       = Some (Inl (restackErr new_UserCanceled ''caller''), [Inr ()],
               answered (prompt_of (os_error ''EPERM'' ''/a'') (user_world [0] [])) (user_world [0] []))
   \<and> renameAsync sample_stat ''/a'' ''/b'' ''caller'' (Inl (os_error ''EPERM'' ''/a'') # [Inr ()])
         (user_world [0] [])
       = Some (Inl (restackErr new_UserCanceled ''caller''), [Inr ()],
               answered (prompt_of (os_error ''EPERM'' ''/a'') (user_world [0] [])) (user_world [0] []))
   \<and> shown (answered (prompt_of (os_error ''EPERM'' ''/a'') (user_world [0] [])) (user_world [0] []))
       = [unlockConfirm_options (Some ''/a'') []]
   \<and> cls (restackErr new_UserCanceled ''caller'') = UserCanceled"
proof -
  have a: "dialog (user_world [0] [])" "choices (user_world [0] []) = 0 # []"
    "code (os_error ''EPERM'' ''/a'') \<in> prompting_codes"
    by (simp_all add: user_world_def os_error_def prompting_codes_def)
  have b: "copyAsync_check sample_stat ''/a'' ''/b'' None = Inr ()"
    by (simp add: copyAsync_check_def selfCopyCheck_def sample_stat_def)
  have c: "code (os_error ''EPERM'' ''/a'') = Some ''EPERM'' \<longrightarrow>
      (\<exists>st. sample_stat ''/b'' = Inr st \<and> \<not> isDirectory st)"
    by (simp add: sample_stat_def)
  have d: "shown (answered (prompt_of (os_error ''EPERM'' ''/a'') (user_world [0] [])) (user_world [0] []))
       = [unlockConfirm_options (Some ''/a'') []]"
    by (simp add: answered_def prompt_of_def user_world_def os_error_def errorPath_def)
  note inst = cancel_rejects_with_UserCanceled [OF a, where rest = "[Inr (5::nat)]"
      and site = "''caller''" and left = "[Inr ()]" and p = "''/a''" and statAsync = sample_stat
      and src = "''/a''" and dst = "''/b''" and options = None]
  from inst b c d show ?thesis by blast
qed

section \<open>Retry convergence\<close>

text \<open>
  Claim C4, as amended. Take an operation that reports its failures to the user: a
  wrapper made by \<open>genWrapperAsync\<close>, \<open>removeAsync\<close>, \<open>unlinkAsync\<close>, \<open>copyAsync\<close> (once
  its self-copy check has passed) or \<open>renameAsync\<close> (provided that, for an \<^verbatim>\<open>EPERM\<close>
  failure, the destination exists and is no directory). With a dialog, if the
  underlying call fails \<open>length errs\<close> times with codes among \<^verbatim>\<open>EBUSY\<close>, \<^verbatim>\<open>ENOSPC\<close> and
  \<^verbatim>\<open>EPERM\<close> and then succeeds, and the user answers button 1 (retry) each time, the call
  succeeds and the user has been shown exactly one box per failure, in order.
\<close>

theorem retry_convergence_interactive:
  assumes "dialog w" and "\<forall>e\<in>set errs. code e \<in> prompting_codes"
    and "choices w = replicate (length errs) 1 @ cs"
  shows
    "genWrapperAsync (map Inl errs @ Inr v # rest) site w = Some (Inr v, rest, retried errs cs w)
     \<and> removeAsync p site (map Inl errs @ Inr () # left) w = Some (Inr (), left, retried errs cs w)
     \<and> unlinkAsync p site (map Inl errs @ Inr () # left) w = Some (Inr (), left, retried errs cs w)
     \<and> (copyAsync_check statAsync src dst options = Inr () \<longrightarrow>
         copyAsync statAsync src dst options site (map Inl errs @ Inr () # left) w
           = Some (Inr (), left, retried errs cs w))
     \<and> ((\<forall>e\<in>set errs. code e = Some ''EPERM'' \<longrightarrow>
            (\<exists>st. statAsync dst = Inr st \<and> \<not> isDirectory st)) \<longrightarrow>
         renameAsync statAsync src dst site (map Inl errs @ Inr () # left) w
           = Some (Inr (), left, retried errs cs w))
     \<and> shown (retried errs cs w) = shown w @ map (\<lambda>e. prompt_of e w) errs
     \<and> length (shown (retried errs cs w)) = length (shown w) + length errs"
proof -
  have "genWrapperAsync (map Inl errs @ Inr v # rest) site w = Some (Inr v, rest, retried errs cs w)"
    using wrapper_converges [OF assms] by (simp add: genWrapperAsync_def)
  moreover have "removeAsync p site (map Inl errs @ Inr () # left) w = Some (Inr (), left, retried errs cs w)"
    using removeInt_converges [OF assms] by (simp add: removeAsync_def)
  moreover have "unlinkAsync p site (map Inl errs @ Inr () # left) w = Some (Inr (), left, retried errs cs w)"
    using unlinkInt_converges [OF assms] by (simp add: unlinkAsync_def)
  moreover have "copyAsync_check statAsync src dst options = Inr () \<longrightarrow>
         copyAsync statAsync src dst options site (map Inl errs @ Inr () # left) w
           = Some (Inr (), left, retried errs cs w)"
    using copyInt_converges [OF assms] by (simp add: copyAsync_def)
  moreover have "(\<forall>e\<in>set errs. code e = Some ''EPERM'' \<longrightarrow>
            (\<exists>st. statAsync dst = Inr st \<and> \<not> isDirectory st)) \<longrightarrow>
         renameAsync statAsync src dst site (map Inl errs @ Inr () # left) w
           = Some (Inr (), left, retried errs cs w)"
    using renameInt_converges [OF assms] by (simp add: renameAsync_def)
  moreover have "shown (retried errs cs w) = shown w @ map (\<lambda>e. prompt_of e w) errs"
    by (simp add: retried_def)
  ultimately show ?thesis by simp
qed


text \<open>
  \<open>rmdirAsync\<close> is a wrapped operation that never asks: after one \<^verbatim>\<open>EBUSY\<close> failure it
  succeeds with no box shown, and after four it rejects although the fifth call of
  \<^verbatim>\<open>fs.rmdirAsync\<close> would have succeeded.
\<close>

theorem retry_convergence_counterexample:
  "rmdirAsync ''/d'' ''caller'' [Inl (os_error ''EBUSY'' ''/d''), Inr ()] = Some (Inr (), [], 100)
   \<and> rmdirAsync ''/d'' ''caller''
        [Inl (os_error ''EBUSY'' ''/d''), Inl (os_error ''EBUSY'' ''/d''),
         Inl (os_error ''EBUSY'' ''/d''), Inl (os_error ''EBUSY'' ''/d''), Inr ()]
       = Some (Inl (restackErr (os_error ''EBUSY'' ''/d'') ''caller''), [Inr ()], 300)"
  by (simp add: rmdirAsync_def NUM_RETRIES_def RETRY_DELAY_MS_def retry_code_def RETRY_ERRORS_def
        os_error_def numeral_3_eq_3)

theorem retry_convergence_interactive_witness:
  "genWrapperAsync (map Inl [os_error ''EBUSY'' ''/a'', os_error ''EPERM'' ''/a''] @ Inr (7::nat) # [])
       ''caller'' (user_world [1, 1] [])
     = Some (Inr 7, [], retried [os_error ''EBUSY'' ''/a'', os_error ''EPERM'' ''/a''] [] (user_world [1, 1] []))
   \<and> removeAsync ''/a'' ''caller'' (map Inl [os_error ''EBUSY'' ''/a'', os_error ''EPERM'' ''/a''] @ Inr () # [])
       (user_world [1, 1] [])
     = Some (Inr (), [], retried [os_error ''EBUSY'' ''/a'', os_error ''EPERM'' ''/a''] [] (user_world [1, 1] []))
   \<and> copyAsync sample_stat ''/a'' ''/b'' None ''caller''
       (map Inl [os_error ''EBUSY'' ''/a'', os_error ''EPERM'' ''/a''] @ Inr () # []) (user_world [1, 1] [])
     = Some (Inr (), [], retried [os_error ''EBUSY'' ''/a'', os_error ''EPERM'' ''/a''] [] (user_world [1, 1] []))
   \<and> renameAsync sample_stat ''/a'' ''/b'' ''caller''
       (map Inl [os_error ''EBUSY'' ''/a'', os_error ''EPERM'' ''/a''] @ Inr () # []) (user_world [1, 1] [])
     = Some (Inr (), [], retried [os_error ''EBUSY'' ''/a'', os_error ''EPERM'' ''/a''] [] (user_world [1, 1] []))
   \<and> map title (shown (retried [os_error ''EBUSY'' ''/a'', os_error ''EPERM'' ''/a''] [] (user_world [1, 1] [])))
     = [''File busy'', ''Access denied'']"
proof -
  have a: "dialog (user_world [1, 1] [])"
    "\<forall>e\<in>set [os_error ''EBUSY'' ''/a'', os_error ''EPERM'' ''/a'']. code e \<in> prompting_codes"
    "choices (user_world [1, 1] [])
       = replicate (length [os_error ''EBUSY'' ''/a'', os_error ''EPERM'' ''/a'']) 1 @ []"
    by (simp_all add: user_world_def os_error_def prompting_codes_def numeral_2_eq_2)
  have b: "copyAsync_check sample_stat ''/a'' ''/b'' None = Inr ()"
    by (simp add: copyAsync_check_def selfCopyCheck_def sample_stat_def)
  have c: "\<forall>e\<in>set [os_error ''EBUSY'' ''/a'', os_error ''EPERM'' ''/a'']. code e = Some ''EPERM'' \<longrightarrow>
            (\<exists>st. sample_stat ''/b'' = Inr st \<and> \<not> isDirectory st)"
    by (simp add: sample_stat_def)
  have d: "map title (shown (retried [os_error ''EBUSY'' ''/a'', os_error ''EPERM'' ''/a''] [] (user_world [1, 1] [])))
     = [''File busy'', ''Access denied'']"
    by (simp add: retried_def prompt_of_def user_world_def os_error_def busyRetry_options_def
          unlockConfirm_options_def)
  note inst = retry_convergence_interactive [OF a, where v = "7::nat" and rest = "[]"
      and site = "''caller''" and left = "[]" and p = "''/a''" and statAsync = sample_stat
      and src = "''/a''" and dst = "''/b''" and options = None]
  from inst b c d show ?thesis by simp
qed

section \<open>Bounded retry of rmdir\<close>

text \<open>
  Claim C7. \<open>rmdirAsync\<close> has no access to the dialog: \<open>rmdirInt\<close> takes no world and
  shows no box. A failure with a code of \<^verbatim>\<open>RETRY_ERRORS\<close> is retried after a delay of
  \<^verbatim>\<open>RETRY_DELAY_MS\<close> = 100 ms, at most \<^verbatim>\<open>NUM_RETRIES\<close> = 3 times: with at most three such
  failures before a success the call resolves, having waited 100 ms per failure; when
  the fourth call fails too, its error is rejected to the caller with the stack of the
  call site, after 300 ms.
\<close>

theorem rmdir_bounded_retry:
  "(length errs \<le> NUM_RETRIES \<and> (\<forall>e\<in>set errs. retry_code e) \<longrightarrow>
      rmdirAsync p site (map Inl errs @ Inr () # rest)
        = Some (Inr (), rest, length errs * RETRY_DELAY_MS))
   \<and> (length errs = NUM_RETRIES \<and> (\<forall>e\<in>set (errs @ [e']). retry_code e) \<longrightarrow>
      rmdirAsync p site (map Inl errs @ Inl e' # rest)
        = Some (Inl (restackErr e' site), rest, NUM_RETRIES * RETRY_DELAY_MS)
      \<and> stack (restackErr e' site) = Some site
      \<and> code (restackErr e' site) = code e')
   \<and> NUM_RETRIES = 3 \<and> RETRY_DELAY_MS = 100"
  using rmdirInt_succeeds [of errs NUM_RETRIES p site "()" rest]
    rmdirInt_gives_up [of errs NUM_RETRIES e' p site rest]
  by (simp add: rmdirAsync_def stack_restackErr code_restackErr)
    (simp add: NUM_RETRIES_def RETRY_DELAY_MS_def)

theorem rmdir_bounded_retry_witness:
  "rmdirAsync ''/d'' ''caller''
      (map Inl [os_error ''EBUSY'' ''/d'', os_error ''EPERM'' ''/d''] @ Inr () # [])
        = Some (Inr (), [], length [os_error ''EBUSY'' ''/d'', os_error ''EPERM'' ''/d''] * RETRY_DELAY_MS)
   \<and> rmdirAsync ''/d'' ''caller''
      (map Inl [os_error ''EBUSY'' ''/d'', os_error ''EBUSY'' ''/d'', os_error ''EPERM'' ''/d'']
         @ Inl (os_error ''EUNKNOWN'' ''/d'') # [Inr ()])
        = Some (Inl (restackErr (os_error ''EUNKNOWN'' ''/d'') ''caller''), [Inr ()],
                NUM_RETRIES * RETRY_DELAY_MS)
   \<and> NUM_RETRIES * RETRY_DELAY_MS = 300"
proof -
  have a: "length [os_error ''EBUSY'' ''/d'', os_error ''EPERM'' ''/d''] \<le> NUM_RETRIES
      \<and> (\<forall>e\<in>set [os_error ''EBUSY'' ''/d'', os_error ''EPERM'' ''/d'']. retry_code e)"
    by (simp add: NUM_RETRIES_def retry_code_def RETRY_ERRORS_def os_error_def)
  have b: "length [os_error ''EBUSY'' ''/d'', os_error ''EBUSY'' ''/d'', os_error ''EPERM'' ''/d'']
        = NUM_RETRIES
      \<and> (\<forall>e\<in>set ([os_error ''EBUSY'' ''/d'', os_error ''EBUSY'' ''/d'', os_error ''EPERM'' ''/d'']
                   @ [os_error ''EUNKNOWN'' ''/d'']). retry_code e)"
    by (simp add: NUM_RETRIES_def retry_code_def RETRY_ERRORS_def os_error_def)
  note i1 = rmdir_bounded_retry [where errs = "[os_error ''EBUSY'' ''/d'', os_error ''EPERM'' ''/d'']"
      and p = "''/d''" and site = "''caller''" and rest = "[]"]
  note i2 = rmdir_bounded_retry
      [where errs = "[os_error ''EBUSY'' ''/d'', os_error ''EBUSY'' ''/d'', os_error ''EPERM'' ''/d'']"
      and e' = "os_error ''EUNKNOWN'' ''/d''" and p = "''/d''" and site = "''caller''" and rest = "[Inr ()]"]
  from i1 a have "rmdirAsync ''/d'' ''caller''
      (map Inl [os_error ''EBUSY'' ''/d'', os_error ''EPERM'' ''/d''] @ Inr () # [])
        = Some (Inr (), [], length [os_error ''EBUSY'' ''/d'', os_error ''EPERM'' ''/d''] * RETRY_DELAY_MS)"
    by blast
  moreover from i2 b have "rmdirAsync ''/d'' ''caller''
      (map Inl [os_error ''EBUSY'' ''/d'', os_error ''EBUSY'' ''/d'', os_error ''EPERM'' ''/d'']
         @ Inl (os_error ''EUNKNOWN'' ''/d'') # [Inr ()])
        = Some (Inl (restackErr (os_error ''EUNKNOWN'' ''/d'') ''caller''), [Inr ()],
                NUM_RETRIES * RETRY_DELAY_MS)"
    by blast
  moreover have "NUM_RETRIES * RETRY_DELAY_MS = 300"
    by (simp add: NUM_RETRIES_def RETRY_DELAY_MS_def)
  ultimately show ?thesis by blast
qed

section \<open>Elevation declined at the privilege prompt\<close>

lemma errorHandler_declined_elevation:
  assumes "dialog w" and "code err = Some ''EPERM''" and "choices w = 2 # cs"
    and "helper w = RunElevatedFailed 5 m # evs"
  shows "errorHandler err site w
     = Some (Inl (restackErr err site),
             (answered (prompt_of err w) w)
               \<lparr>helper := evs,
                logged := logged w @ [(''failed to acquire permission'', ClassDefault)]\<rparr>)"
  using assms
  by (simp add: errorHandler_def errorRepeat_def unlockConfirm_def showMessageBox_def
        elevated_def prompt_of_def answered_def Let_def new_UserCanceled_def restackErr_def)


text \<open>
  Claim C2 says that a permission-denied recovery in which the user chooses
  \<^verbatim>\<open>Give permission\<close> and then declines the privilege prompt rejects with
  \<^verbatim>\<open>UserCanceled\<close>. Here the wrapped call fails with \<^verbatim>\<open>EPERM\<close>, no process holds the file,
  the user presses button 2 and the helper ends with code 5: \<open>elevated\<close> does reject with
  \<^verbatim>\<open>UserCanceled\<close>, but the \<^verbatim>\<open>catch\<close> in \<open>errorRepeat\<close> logs it and rejects with the
  original error, so the call rejects with the \<^verbatim>\<open>EPERM\<close> error.
\<close>

theorem declined_elevation_rejects_with_permission_error:
  "genWrapperAsync [Inl (os_error ''EPERM'' ''/a''), Inr ()] ''caller''
       (user_world [2] [RunElevatedFailed 5 ''declined''])
     = Some (Inl (restackErr (os_error ''EPERM'' ''/a'') ''caller''), [Inr ()],
             \<lparr>dialog = True, choices = [],
              shown = [\<lparr>title = ''Access denied'', subject = Some ''/a'', detail = None,
                        buttons = [''Cancel'', ''Retry'', ''Give permission'']\<rparr>],
              wholocks = (\<lambda>p. []), helper = [],
              logged = [(''failed to acquire permission'', ClassDefault)]\<rparr>)
   \<and> cls (restackErr (os_error ''EPERM'' ''/a'') ''caller'') = ErrnoException
   \<and> code (restackErr (os_error ''EPERM'' ''/a'') ''caller'') = Some ''EPERM''
   \<and> elevated (Some ''/a'') (user_world [] [RunElevatedFailed 5 ''declined''])
     = Some (Inl new_UserCanceled, user_world [] [])"
  by (simp add: genWrapperAsync_def errorHandler_def errorRepeat_def unlockConfirm_def
        unlockConfirm_options_def showMessageBox_def elevated_def errorPath_def
        user_world_def os_error_def restackErr_def new_UserCanceled_def Let_def)

section \<open>The self-copy guard\<close>

lemma copyAsync_guard_off:
  "noSelfCopy opts = Some True \<Longrightarrow>
   copyAsync statAsync src dst (Some opts) site copy w
     = (case copyInt src dst site copy w of
          None \<Rightarrow> None
        | Some (Inl err, rest, w') \<Rightarrow> Some (Inl (restackErr err site), rest, w')
        | Some (Inr v, rest, w') \<Rightarrow> Some (Inr v, rest, w'))"
  by (simp add: copyAsync_def copyAsync_check_def)

text \<open>
  Claim C5. When \<^verbatim>\<open>fs.statAsync\<close> gives the same \<^verbatim>\<open>ino\<close> for source and destination and
  the caller has not set \<^verbatim>\<open>noSelfCopy\<close> to true (no options, or the field unset or false),
  \<open>copyAsync\<close> rejects with an error that names both paths and the id, restacked to the
  call site, without any call of \<^verbatim>\<open>fs.copyAsync\<close> (all attempts are left) and without any
  prompt. With \<^verbatim>\<open>noSelfCopy\<close> true the result does not depend on \<^verbatim>\<open>fs.statAsync\<close> at all,
  and a copy whose underlying call succeeds resolves.
\<close>

theorem self_copy_guard:
  "(statAsync src = Inr s0 \<and> statAsync dst = Inr s1 \<and> ino s0 = ino s1
      \<and> (case options of None \<Rightarrow> True | Some opts \<Rightarrow> noSelfCopy opts \<noteq> Some True) \<longrightarrow>
      copyAsync statAsync src dst options site copy w
        = Some (Inl (restackErr (new_Error (SameFileMsg src dst (ino s0))) site), copy, w))
   \<and> (noSelfCopy opts = Some True \<longrightarrow>
      copyAsync statAsync src dst (Some opts) site copy w
        = copyAsync statAsync' src dst (Some opts) site copy w
      \<and> copyAsync statAsync src dst (Some opts) site (Inr () # rest) w = Some (Inr (), rest, w))"
proof -
  have "copyAsync statAsync src dst options site copy w
        = Some (Inl (restackErr (new_Error (SameFileMsg src dst (ino s0))) site), copy, w)"
    if "statAsync src = Inr s0" "statAsync dst = Inr s1" "ino s0 = ino s1"
      "case options of None \<Rightarrow> True | Some opts \<Rightarrow> noSelfCopy opts \<noteq> Some True"
    using that
    by (cases options) (simp_all add: copyAsync_def copyAsync_check_def selfCopyCheck_def)
  moreover have "copyAsync statAsync src dst (Some opts) site copy w
        = copyAsync statAsync' src dst (Some opts) site copy w"
    if "noSelfCopy opts = Some True"
    using that by (simp add: copyAsync_guard_off)
  moreover have "copyAsync statAsync src dst (Some opts) site (Inr () # rest) w = Some (Inr (), rest, w)"
    if "noSelfCopy opts = Some True"
    using that by (simp add: copyAsync_guard_off)
  ultimately show ?thesis by blast
qed

theorem self_copy_guard_witness:
  "copyAsync sample_stat ''/a'' ''/a2'' None ''caller'' [Inr ()] (user_world [] [])
      = Some (Inl (restackErr (new_Error (SameFileMsg ''/a'' ''/a2'' 11)) ''caller''),
              [Inr ()], user_world [] [])
   \<and> copyAsync sample_stat ''/a'' ''/a2'' (Some \<lparr>noSelfCopy = Some False\<rparr>) ''caller'' [Inr ()]
        (user_world [] [])
      = Some (Inl (restackErr (new_Error (SameFileMsg ''/a'' ''/a2'' 11)) ''caller''),
              [Inr ()], user_world [] [])
   \<and> copyAsync sample_stat ''/a'' ''/a2'' (Some \<lparr>noSelfCopy = Some True\<rparr>) ''caller'' (Inr () # [])
        (user_world [] [])
      = Some (Inr (), [], user_world [] [])"
proof -
  have a: "sample_stat ''/a'' = Inr \<lparr>ino = 11, isDirectory = False\<rparr>
      \<and> sample_stat ''/a2'' = Inr \<lparr>ino = 11, isDirectory = False\<rparr>
      \<and> ino \<lparr>ino = 11, isDirectory = False\<rparr> = ino \<lparr>ino = 11, isDirectory = False\<rparr>"
    by (simp add: sample_stat_def)
  have b: "case None :: copy_options option of None \<Rightarrow> True
           | Some opts \<Rightarrow> noSelfCopy opts \<noteq> Some True"
    "case Some \<lparr>noSelfCopy = Some False\<rparr> of None \<Rightarrow> True
           | Some opts \<Rightarrow> noSelfCopy opts \<noteq> Some True"
    "noSelfCopy \<lparr>noSelfCopy = Some True\<rparr> = Some True"
    by simp_all
  note i1 = self_copy_guard [where statAsync = sample_stat and src = "''/a''" and dst = "''/a2''"
      and ?s0.0 = "\<lparr>ino = 11, isDirectory = False\<rparr>" and ?s1.0 = "\<lparr>ino = 11, isDirectory = False\<rparr>"
      and options = None and site = "''caller''" and copy = "[Inr ()]" and w = "user_world [] []"
      and opts = "\<lparr>noSelfCopy = Some True\<rparr>" and rest = "[]"]
  note i2 = self_copy_guard [where statAsync = sample_stat and src = "''/a''" and dst = "''/a2''"
      and ?s0.0 = "\<lparr>ino = 11, isDirectory = False\<rparr>" and ?s1.0 = "\<lparr>ino = 11, isDirectory = False\<rparr>"
      and options = "Some \<lparr>noSelfCopy = Some False\<rparr>" and site = "''caller''" and copy = "[Inr ()]"
      and w = "user_world [] []"]
  from i1 a b have "copyAsync sample_stat ''/a'' ''/a2'' None ''caller'' [Inr ()] (user_world [] [])
      = Some (Inl (restackErr (new_Error (SameFileMsg ''/a'' ''/a2'' 11)) ''caller''),
              [Inr ()], user_world [] [])"
    "copyAsync sample_stat ''/a'' ''/a2'' (Some \<lparr>noSelfCopy = Some True\<rparr>) ''caller'' (Inr () # [])
        (user_world [] [])
      = Some (Inr (), [], user_world [] [])"
    by simp_all
  moreover from i2 a b have "copyAsync sample_stat ''/a'' ''/a2'' (Some \<lparr>noSelfCopy = Some False\<rparr>) ''caller'' [Inr ()]
        (user_world [] [])
      = Some (Inl (restackErr (new_Error (SameFileMsg ''/a'' ''/a2'' 11)) ''caller''),
              [Inr ()], user_world [] [])"
    by simp
  ultimately show ?thesis by blast
qed

section \<open>The permission prompt\<close>

lemma errorHandler_shown:
  "errorHandler err s w = Some (r, w') \<Longrightarrow> \<exists>more. shown w' = shown w @ more"
  by (auto simp: errorHandler_def errorRepeat_def busyRetry_def nospcQuery_def unlockConfirm_def
        showMessageBox_def elevated_def Let_def
        split: if_splits option.splits sum.splits list.splits)

lemma wrapper_shown:
  "wrapper s rs w = Some (r, rs', w') \<Longrightarrow> \<exists>more. shown w' = shown w @ more"
proof (induction rs arbitrary: w)
  case Nil
  then show ?case by simp
next
  case (Cons a rs)
  show ?case
  proof (cases a)
    case (Inr v)
    with Cons.prems show ?thesis by simp
  next
    case (Inl err)
    with Cons.prems obtain r1 w1 where h: "errorHandler err s w = Some (r1, w1)"
      by (auto split: option.splits)
    from errorHandler_shown [OF h] obtain m1 where m1: "shown w1 = shown w @ m1" by blast
    show ?thesis
    proof (cases r1)
      case (Inl e1)
      with Cons.prems \<open>a = Inl err\<close> h have "w' = w1" by simp
      with m1 show ?thesis by blast
    next
      case (Inr u)
      with Cons.prems \<open>a = Inl err\<close> h have "wrapper s rs w1 = Some (r, rs', w')" by simp
      from Cons.IH [OF this] obtain m2 where "shown w' = shown w1 @ m2" by blast
      with m1 show ?thesis by simp
    qed
  qed
qed

lemma errorHandler_eperm_shown:
  assumes "dialog w" and "code err = Some ''EPERM''" and "errorHandler err s w = Some (r, w')"
  shows "shown w' = shown w @ [unlockConfirm_options (errorPath err) (wholocks w (errorPath err))]"
  using assms
  by (auto simp: errorHandler_def errorRepeat_def unlockConfirm_def
        showMessageBox_def elevated_def Let_def
        split: if_splits option.splits sum.splits list.splits)

lemma errorHandler_eperm_returns:
  assumes "dialog w" and "code err = Some ''EPERM''" and "choices w = c # cs"
    and "c = 2 \<longrightarrow> helper w \<noteq> []"
  shows "\<exists>r w'. errorHandler err s w = Some (r, w')"
  using assms
  by (auto simp: errorHandler_def errorRepeat_def unlockConfirm_def
        showMessageBox_def elevated_def Let_def
        split: if_splits option.splits sum.splits list.splits)

text \<open>
  Claim C6, as amended. When a failure with code \<^verbatim>\<open>EPERM\<close> reaches \<open>errorHandler\<close> and a
  dialog exists, the user is shown exactly one box, built by \<open>unlockConfirm\<close>: its buttons
  are cancel and retry, and \<^verbatim>\<open>Give permission\<close> is a third button exactly when \<^verbatim>\<open>wholocks\<close>
  finds no process holding the path. The handler returns whenever the user answers (and,
  on button 2, the helper reports an outcome). For a wrapper made by \<open>genWrapperAsync\<close>
  whose first attempt fails with \<^verbatim>\<open>EPERM\<close>, that box is the first one shown by the call.
\<close>

theorem permission_prompt_buttons:
  assumes "dialog w" and "code err = Some ''EPERM''"
  shows
    "(choices w \<noteq> [] \<and> (hd (choices w) = 2 \<longrightarrow> helper w \<noteq> []) \<longrightarrow>
        (\<exists>r w'. errorHandler err site w = Some (r, w')))
     \<and> (\<forall>r w'. errorHandler err site w = Some (r, w') \<longrightarrow>
          shown w' = shown w @ [unlockConfirm_options (errorPath err) (wholocks w (errorPath err))])
     \<and> (\<forall>r rest' w'. genWrapperAsync (Inl err # rest) site w = Some (r, rest', w') \<longrightarrow>
          (\<exists>later. shown w' = shown w
             @ unlockConfirm_options (errorPath err) (wholocks w (errorPath err)) # later))
     \<and> buttons (unlockConfirm_options (errorPath err) (wholocks w (errorPath err)))
       = (if wholocks w (errorPath err) = [] then [''Cancel'', ''Retry'', ''Give permission'']
          else [''Cancel'', ''Retry''])"
proof -
  have "\<exists>r w'. errorHandler err site w = Some (r, w')"
    if "choices w \<noteq> []" "hd (choices w) = 2 \<longrightarrow> helper w \<noteq> []"
  proof -
    from that obtain c cs where "choices w = c # cs" "c = 2 \<longrightarrow> helper w \<noteq> []"
      by (cases "choices w") auto
    with assms show ?thesis by (intro errorHandler_eperm_returns)
  qed
  moreover have "\<forall>r w'. errorHandler err site w = Some (r, w') \<longrightarrow>
          shown w' = shown w @ [unlockConfirm_options (errorPath err) (wholocks w (errorPath err))]"
    using errorHandler_eperm_shown [OF assms] by blast
  moreover have "\<exists>later. shown w' = shown w
             @ unlockConfirm_options (errorPath err) (wholocks w (errorPath err)) # later"
    if run: "genWrapperAsync (Inl err # rest) site w = Some (r, rest', w')" for r rest' w'
  proof -
    from run obtain r1 w1 where h: "errorHandler err site w = Some (r1, w1)"
      by (auto simp: genWrapperAsync_def split: option.splits)
    note s1 = errorHandler_eperm_shown [OF assms h]
    show ?thesis
    proof (cases r1)
      case (Inl e1)
      with run h have "w' = w1" by (simp add: genWrapperAsync_def)
      with s1 show ?thesis by simp
    next
      case (Inr u)
      with run h have "wrapper site rest w1 = Some (r, rest', w')"
        by (simp add: genWrapperAsync_def)
      from wrapper_shown [OF this] obtain m where "shown w' = shown w1 @ m" by blast
      with s1 show ?thesis by simp
    qed
  qed
  moreover have "buttons (unlockConfirm_options (errorPath err) (wholocks w (errorPath err)))
       = (if wholocks w (errorPath err) = [] then [''Cancel'', ''Retry'', ''Give permission'']
          else [''Cancel'', ''Retry''])"
    by (simp add: unlockConfirm_options_def)
  ultimately show ?thesis by blast
qed


text \<open>
  With a process holding the file, the box of a permission-denied failure offers
  cancel and retry only.
\<close>

theorem permission_prompt_counterexample:
  "genWrapperAsync [Inl (os_error ''EPERM'' ''/a''), Inr ()] ''caller'' (locked_world [1])
     = Some (Inr (), [],
         (locked_world [])\<lparr>shown :=
            [\<lparr>title = ''Access denied'', subject = Some ''/a'',
              detail = Some [(''game.exe'', 4242)], buttons = [''Cancel'', ''Retry'']\<rparr>]\<rparr>)"
  by (simp add: genWrapperAsync_def errorHandler_def errorRepeat_def unlockConfirm_def
        unlockConfirm_options_def showMessageBox_def errorPath_def
        locked_world_def os_error_def Let_def)

theorem permission_prompt_buttons_witness:
  "(\<exists>r w'. errorHandler (os_error ''EPERM'' ''/a'') ''caller'' (user_world [2] [Disconnected]) = Some (r, w'))
   \<and> genWrapperAsync (Inl (os_error ''EPERM'' ''/a'') # [Inr ()]) ''caller'' (user_world [2] [Disconnected])
      = Some (Inr (), [], (user_world [] [])\<lparr>shown :=
           [\<lparr>title = ''Access denied'', subject = Some ''/a'', detail = None,
             buttons = [''Cancel'', ''Retry'', ''Give permission'']\<rparr>]\<rparr>)
   \<and> buttons (unlockConfirm_options (errorPath (os_error ''EPERM'' ''/a''))
        (wholocks (user_world [2] [Disconnected]) (errorPath (os_error ''EPERM'' ''/a''))))
      = [''Cancel'', ''Retry'', ''Give permission'']"
proof -
  have a: "dialog (user_world [2] [Disconnected])" "code (os_error ''EPERM'' ''/a'') = Some ''EPERM''"
    by (simp_all add: user_world_def os_error_def)
  have b: "choices (user_world [2] [Disconnected]) \<noteq> []
      \<and> (hd (choices (user_world [2] [Disconnected])) = 2 \<longrightarrow> helper (user_world [2] [Disconnected]) \<noteq> [])"
    by (simp add: user_world_def)
  have c: "genWrapperAsync (Inl (os_error ''EPERM'' ''/a'') # [Inr ()]) ''caller'' (user_world [2] [Disconnected])
      = Some (Inr (), [], (user_world [] [])\<lparr>shown :=
           [\<lparr>title = ''Access denied'', subject = Some ''/a'', detail = None,
             buttons = [''Cancel'', ''Retry'', ''Give permission'']\<rparr>]\<rparr>)"
    by (simp add: genWrapperAsync_def errorHandler_def errorRepeat_def unlockConfirm_def
        unlockConfirm_options_def showMessageBox_def errorPath_def elevated_def
        user_world_def os_error_def Let_def)
  have d: "wholocks (user_world [2] [Disconnected]) (errorPath (os_error ''EPERM'' ''/a'')) = []"
    by (simp add: user_world_def)
  note inst = permission_prompt_buttons [OF a, where site = "''caller''" and rest = "[Inr ()]"]
  from inst b c d show ?thesis by simp
qed

section \<open>Removal of a mod\<close>

lemma dispatched_append: "dispatched (xs @ ys) = dispatched xs @ dispatched ys"
  by (induction xs rule: dispatched.induct) simp_all

lemma dispatched_then_chain:
  "\<forall>step\<in>set steps. dispatched [fst step] = [] \<Longrightarrow> dispatched (snd (then_chain steps)) = []"
proof (induction steps rule: then_chain.induct)
  case 1
  then show ?case by simp
next
  case (2 ev err steps)
  then show ?case by simp
next
  case (3 ev steps)
  then have "dispatched [ev] = []" "dispatched (snd (then_chain steps)) = []" by simp_all
  then show ?case
    using dispatched_append [of "[ev]" "snd (then_chain steps)"]
    by (simp add: case_prod_beta)
qed

lemma dispatched_undeploy: "dispatched (snd (undeploy env acts g m s)) = []"
  by (auto simp: undeploy_def Let_def dispatched_then_chain split: option.splits)

lemma dispatched_undeployIfEnabled: "dispatched (snd (undeployIfEnabled env acts g modId m s)) = []"
  by (simp add: undeployIfEnabled_def dispatched_undeploy)

lemma dispatched_catch: "dispatched [onRemoveMod_catch cb err] = []"
  by (simp add: onRemoveMod_catch_def)

lemma modState_found:
  assumes "persistent_mods s g = Some mods" and "map_of mods modId = Some m"
    and "mod_state m = ''downloaded'' \<or> mod_state m = ''installed''"
  shows "modState_of s g modId = Some ''downloaded'' \<or> modState_of s g modId = Some ''installed''"
  using assms by (auto simp: modState_of_def)

lemma onRemoveMod_undeploy_failed:
  assumes "persistent_mods s g = Some mods" and "map_of mods modId = Some m"
    and "mod_state m = ''downloaded'' \<or> mod_state m = ''installed''"
    and "undeployIfEnabled env acts g modId m s = (Inl err, evs)"
  shows "onRemoveMod env acts g modId cb s rimraf w
     = Some (Dispatch (SetModEnabled (lastActiveProfileId s g) modId False) # evs
               @ [onRemoveMod_catch cb err], rimraf, w)"
  using assms modState_found [OF assms(1,2,3)]
  by (auto simp: onRemoveMod_def Let_def)

lemma onRemoveMod_remove_failed:
  assumes "persistent_mods s g = Some mods" and "map_of mods modId = Some m"
    and "mod_state m = ''downloaded'' \<or> mod_state m = ''installed''"
    and "undeployIfEnabled env acts g modId m s = (Inr (), evs)"
    and "removeAsync (path_join (installPathForGame s g) (mod_installationPath m)) ''onRemoveMod''
           rimraf w = Some (Inl err, rimraf', w')"
  shows "onRemoveMod env acts g modId cb s rimraf w
     = Some (Dispatch (SetModEnabled (lastActiveProfileId s g) modId False) # evs
               @ [FsRemove (path_join (installPathForGame s g) (mod_installationPath m)),
                  onRemoveMod_catch cb err], rimraf', w')"
proof -
  from assms(5) have "code err \<noteq> Some ''ENOENT''"
    by (auto simp: removeAsync_def dest: removeInt_not_found_hidden)
  with assms modState_found [OF assms(1,2,3)] show ?thesis
    by (auto simp: onRemoveMod_def Let_def)
qed

lemma onRemoveMod_removed:
  assumes "persistent_mods s g = Some mods" and "map_of mods modId = Some m"
    and "mod_state m = ''downloaded'' \<or> mod_state m = ''installed''"
    and "undeployIfEnabled env acts g modId m s = (Inr (), evs)"
    and "removeAsync (path_join (installPathForGame s g) (mod_installationPath m)) ''onRemoveMod''
           rimraf w = Some (Inr (), rimraf', w')"
  shows "onRemoveMod env acts g modId cb s rimraf w
     = Some (Dispatch (SetModEnabled (lastActiveProfileId s g) modId False) # evs
               @ [FsRemove (path_join (installPathForGame s g) (mod_installationPath m)),
                  Dispatch (RemoveMod g (mod_id m))]
               @ (if cb then [Callback None] else []), rimraf', w')"
  using assms modState_found [OF assms(1,2,3)]
  by (auto simp: onRemoveMod_def Let_def)


lemma modState_lookup:
  assumes "modState_of s g modId = Some ''downloaded'' \<or> modState_of s g modId = Some ''installed''"
  obtains mods m where "persistent_mods s g = Some mods" and "map_of mods modId = Some m"
    and "mod_state m = ''downloaded'' \<or> mod_state m = ''installed''"
  using assms by (auto simp: modState_of_def split: option.splits)


lemma sample_found:
  "persistent_mods sample_state ''skyrim''
     = Some [(''A'', sample_mod ''A'' ''installed''), (''B'', sample_mod ''B'' ''downloading''),
             (''C'', sample_mod ''C'' ''installed'')]"
  "map_of [(''A'', sample_mod ''A'' ''installed''), (''B'', sample_mod ''B'' ''downloading''),
           (''C'', sample_mod ''C'' ''installed'')] ''A'' = Some (sample_mod ''A'' ''installed'')"
  "mod_state (sample_mod ''A'' ''installed'') = ''downloaded''
     \<or> mod_state (sample_mod ''A'' ''installed'') = ''installed''"
  by (simp_all add: sample_state_def sample_mod_def)

lemma sample_undeploy:
  "undeployIfEnabled sample_env [sample_method failure] ''skyrim'' ''A''
       (sample_mod ''A'' ''installed'') sample_state
     = (case failure of
          None \<Rightarrow>
            (Inr (), [GetNormalizeFunc (Some ''/games/skyrim/data''),
                      LoadActivation (Some ''/games/skyrim/data''), Prepare ''hardlink'',
                      Deactivate ''hardlink'' ''A'', Finalize ''hardlink'',
                      SaveActivation ''hardlink''])
        | Some err \<Rightarrow>
            (Inl err, [GetNormalizeFunc (Some ''/games/skyrim/data''),
                       LoadActivation (Some ''/games/skyrim/data''), Prepare ''hardlink'',
                       Deactivate ''hardlink'' ''A'']))"
  by (cases failure)
    (simp_all add: undeployIfEnabled_def wasEnabled_def lastActiveProfileId_def undeploy_def
       sample_state_def sample_env_def sample_method_def sample_mod_def Let_def)

lemma sample_target:
  "path_join (installPathForGame sample_state ''skyrim'')
     (mod_installationPath (sample_mod ''A'' ''installed'')) = ''/staging/A''"
  "lastActiveProfileId sample_state ''skyrim'' = Some ''p1''"
  "mod_id (sample_mod ''A'' ''installed'') = ''A''"
  by (simp_all add: path_join_def sample_state_def sample_mod_def lastActiveProfileId_def)



text \<open>
  Claim C10. When the state of the mod is \<^verbatim>\<open>downloaded\<close> or \<^verbatim>\<open>installed\<close>, the first
  effect of \<open>onRemoveMod\<close> is the dispatch of \<^verbatim>\<open>setModEnabled(profileId, modId, false)\<close>
  for the last active profile of the game, before any step of \<open>undeploy\<close> and before
  \<^verbatim>\<open>fs.removeAsync\<close>; no \<^verbatim>\<open>setModEnabled\<close> is dispatched after it. So when \<open>undeploy\<close> or
  the removal of the directory rejects, the handler ends having dispatched that one
  action only: the mod is still in the store, and disabled.
\<close>

theorem removal_disables_first:
  assumes "modState_of s g modId = Some ''downloaded'' \<or> modState_of s g modId = Some ''installed''"
  shows
    "(\<forall>tr rs w'. onRemoveMod env acts g modId cb s rimraf w = Some (tr, rs, w') \<longrightarrow>
        (\<exists>later. tr = Dispatch (SetModEnabled (lastActiveProfileId s g) modId False) # later
           \<and> (\<forall>p m b. SetModEnabled p m b \<notin> set (dispatched later))))
     \<and> (\<forall>mods m err evs.
          persistent_mods s g = Some mods \<and> map_of mods modId = Some m
          \<and> undeployIfEnabled env acts g modId m s = (Inl err, evs) \<longrightarrow>
          (\<exists>tr. onRemoveMod env acts g modId cb s rimraf w = Some (tr, rimraf, w)
             \<and> dispatched tr = [SetModEnabled (lastActiveProfileId s g) modId False]))
     \<and> (\<forall>mods m err evs rimraf' w'.
          persistent_mods s g = Some mods \<and> map_of mods modId = Some m
          \<and> undeployIfEnabled env acts g modId m s = (Inr (), evs)
          \<and> removeAsync (path_join (installPathForGame s g) (mod_installationPath m))
               ''onRemoveMod'' rimraf w = Some (Inl err, rimraf', w') \<longrightarrow>
          (\<exists>tr. onRemoveMod env acts g modId cb s rimraf w = Some (tr, rimraf', w')
             \<and> dispatched tr = [SetModEnabled (lastActiveProfileId s g) modId False]))"
proof -
  from assms obtain mods m where found: "persistent_mods s g = Some mods"
    "map_of mods modId = Some m" "mod_state m = ''downloaded'' \<or> mod_state m = ''installed''"
    by (rule modState_lookup)
  obtain r evs where u: "undeployIfEnabled env acts g modId m s = (r, evs)"
    by (cases "undeployIfEnabled env acts g modId m s")
  have quiet: "dispatched evs = []"
    using dispatched_undeployIfEnabled [of env acts g modId m s] u by simp
  let ?disable = "Dispatch (SetModEnabled (lastActiveProfileId s g) modId False)"
  let ?target = "path_join (installPathForGame s g) (mod_installationPath m)"
  have first: "\<exists>later. tr = ?disable # later \<and> (\<forall>p m b. SetModEnabled p m b \<notin> set (dispatched later))"
    if run: "onRemoveMod env acts g modId cb s rimraf w = Some (tr, rs, w')" for tr rs w'
  proof (cases r)
    case (Inl err)
    with u have "undeployIfEnabled env acts g modId m s = (Inl err, evs)" by simp
    from onRemoveMod_undeploy_failed [OF found this] run
    have "tr = ?disable # evs @ [onRemoveMod_catch cb err]" by simp
    moreover have "dispatched (evs @ [onRemoveMod_catch cb err]) = []"
      by (simp add: dispatched_append quiet dispatched_catch)
    ultimately show ?thesis by simp
  next
    case (Inr v)
    with u have ok: "undeployIfEnabled env acts g modId m s = (Inr (), evs)" by simp
    from run found ok obtain removed rimraf' w1 where
      rm: "removeAsync ?target ''onRemoveMod'' rimraf w = Some (removed, rimraf', w1)"
      using modState_found [OF found]
      by (auto simp: onRemoveMod_def Let_def split: option.splits)
    show ?thesis
    proof (cases removed)
      case (Inl err)
      with rm have "removeAsync ?target ''onRemoveMod'' rimraf w = Some (Inl err, rimraf', w1)"
        by simp
      from onRemoveMod_remove_failed [OF found ok this] run
      have "tr = ?disable # evs @ [FsRemove ?target, onRemoveMod_catch cb err]" by simp
      moreover have "dispatched (evs @ [FsRemove ?target, onRemoveMod_catch cb err]) = []"
        using dispatched_catch [of cb err] by (simp add: dispatched_append quiet)
      ultimately show ?thesis by simp
    next
      case (Inr v')
      with rm have "removeAsync ?target ''onRemoveMod'' rimraf w = Some (Inr (), rimraf', w1)"
        by simp
      from onRemoveMod_removed [OF found ok this] run
      have "tr = ?disable # evs @ [FsRemove ?target, Dispatch (RemoveMod g (mod_id m))]
                @ (if cb then [Callback None] else [])" by simp
      moreover have "dispatched (evs @ [FsRemove ?target, Dispatch (RemoveMod g (mod_id m))]
                @ (if cb then [Callback None] else [])) = [RemoveMod g (mod_id m)]"
        by (simp add: dispatched_append quiet)
      ultimately show ?thesis by simp
    qed
  qed
  have failed1: "\<exists>tr. onRemoveMod env acts g modId cb s rimraf w = Some (tr, rimraf, w)
             \<and> dispatched tr = [SetModEnabled (lastActiveProfileId s g) modId False]"
    if "persistent_mods s g = Some mods'" "map_of mods' modId = Some m'"
      "undeployIfEnabled env acts g modId m' s = (Inl err, evs')" for mods' m' err evs'
  proof -
    from that found have same: "mods' = mods" "m' = m" by simp_all
    with that u have "undeployIfEnabled env acts g modId m s = (Inl err, evs)" "evs' = evs"
      by simp_all
    from onRemoveMod_undeploy_failed [OF found this(1)] show ?thesis
      by (simp add: dispatched_append quiet dispatched_catch)
  qed
  have failed2: "\<exists>tr. onRemoveMod env acts g modId cb s rimraf w = Some (tr, rimraf', w')
             \<and> dispatched tr = [SetModEnabled (lastActiveProfileId s g) modId False]"
    if "persistent_mods s g = Some mods'" "map_of mods' modId = Some m'"
      "undeployIfEnabled env acts g modId m' s = (Inr (), evs')"
      "removeAsync (path_join (installPathForGame s g) (mod_installationPath m'))
               ''onRemoveMod'' rimraf w = Some (Inl err, rimraf', w')"
    for mods' m' err evs' rimraf' w'
  proof -
    from that found have same: "mods' = mods" "m' = m" by simp_all
    with that u have ok: "undeployIfEnabled env acts g modId m s = (Inr (), evs)"
      and rm: "removeAsync ?target ''onRemoveMod'' rimraf w = Some (Inl err, rimraf', w')"
      by simp_all
    from onRemoveMod_remove_failed [OF found ok rm] show ?thesis
      using dispatched_catch [of cb err] by (simp add: dispatched_append quiet)
  qed
  from first failed1 failed2 show ?thesis by blast
qed

theorem removal_disables_first_witness:
  "(\<exists>tr. onRemoveMod sample_env [sample_method (Some (new_TemporaryError ''locked''))] ''skyrim''
            ''A'' True sample_state [Inr ()] (user_world [] [])
          = Some (tr, [Inr ()], user_world [] [])
        \<and> dispatched tr = [SetModEnabled (Some ''p1'') ''A'' False])
   \<and> (\<exists>tr. onRemoveMod sample_env [sample_method None] ''skyrim'' ''A'' True sample_state
            [Inl (os_error ''EIO'' ''/staging/A'')] (user_world [] [])
          = Some (tr, [], user_world [] [])
        \<and> dispatched tr = [SetModEnabled (Some ''p1'') ''A'' False])
   \<and> (\<exists>later. onRemoveMod sample_env [sample_method None] ''skyrim'' ''A'' True sample_state
                   [Inr ()] (user_world [] [])
          = Some (Dispatch (SetModEnabled (Some ''p1'') ''A'' False) # later, [], user_world [] [])
        \<and> dispatched later = [RemoveMod ''skyrim'' ''A''])
   \<and> wasEnabled sample_state ''skyrim'' ''A''"
proof -
  have pre: "modState_of sample_state ''skyrim'' ''A'' = Some ''downloaded''
      \<or> modState_of sample_state ''skyrim'' ''A'' = Some ''installed''"
    by (simp add: modState_of_def sample_state_def sample_mod_def)
  have en: "wasEnabled sample_state ''skyrim'' ''A''"
    by (simp add: wasEnabled_def lastActiveProfileId_def sample_state_def)
  have rm1: "removeAsync (path_join (installPathForGame sample_state ''skyrim'')
          (mod_installationPath (sample_mod ''A'' ''installed''))) ''onRemoveMod''
        [Inl (os_error ''EIO'' ''/staging/A'')] (user_world [] [])
      = Some (Inl (restackErr (os_error ''EIO'' ''/staging/A'') ''onRemoveMod''), [], user_world [] [])"
    by (simp add: sample_target removeAsync_def errorHandler_def errorRepeat_def os_error_def
          restackErr_def)
  have run3: "onRemoveMod sample_env [sample_method None] ''skyrim'' ''A'' True sample_state
        [Inr ()] (user_world [] [])
     = Some ([Dispatch (SetModEnabled (Some ''p1'') ''A'' False),
              GetNormalizeFunc (Some ''/games/skyrim/data''),
              LoadActivation (Some ''/games/skyrim/data''), Prepare ''hardlink'',
              Deactivate ''hardlink'' ''A'', Finalize ''hardlink'', SaveActivation ''hardlink'',
              FsRemove ''/staging/A'', Dispatch (RemoveMod ''skyrim'' ''A''), Callback None],
             [], user_world [] [])"
    using onRemoveMod_removed [OF sample_found, where env = sample_env
        and acts = "[sample_method None]" and cb = True and rimraf = "[Inr ()]"
        and w = "user_world [] []"]
    by (simp add: sample_undeploy sample_target removeAsync_def)
  note i1 = removal_disables_first [OF pre, where env = sample_env
      and acts = "[sample_method (Some (new_TemporaryError ''locked''))]" and cb = True
      and rimraf = "[Inr ()]" and w = "user_world [] []"]
  note i2 = removal_disables_first [OF pre, where env = sample_env
      and acts = "[sample_method None]" and cb = True
      and rimraf = "[Inl (os_error ''EIO'' ''/staging/A'')]" and w = "user_world [] []"]
  note i3 = removal_disables_first [OF pre, where env = sample_env
      and acts = "[sample_method None]" and cb = True
      and rimraf = "[Inr ()]" and w = "user_world [] []"]
  from i1 sample_found(1,2) sample_undeploy [of "Some (new_TemporaryError ''locked'')"]
  have c1: "\<exists>tr. onRemoveMod sample_env [sample_method (Some (new_TemporaryError ''locked''))] ''skyrim''
            ''A'' True sample_state [Inr ()] (user_world [] [])
          = Some (tr, [Inr ()], user_world [] [])
        \<and> dispatched tr = [SetModEnabled (Some ''p1'') ''A'' False]"
    by (simp add: sample_target)
  from i2 sample_found(1,2) sample_undeploy [of None] rm1
  have c2: "\<exists>tr. onRemoveMod sample_env [sample_method None] ''skyrim'' ''A'' True sample_state
            [Inl (os_error ''EIO'' ''/staging/A'')] (user_world [] [])
          = Some (tr, [], user_world [] [])
        \<and> dispatched tr = [SetModEnabled (Some ''p1'') ''A'' False]"
    by (simp add: sample_target)
  from i3 run3
  have c3: "\<exists>later. onRemoveMod sample_env [sample_method None] ''skyrim'' ''A'' True sample_state
                   [Inr ()] (user_world [] [])
          = Some (Dispatch (SetModEnabled (Some ''p1'') ''A'' False) # later, [], user_world [] [])
        \<and> dispatched later = [RemoveMod ''skyrim'' ''A'']"
    by simp
  from c1 c2 c3 en show ?thesis by blast
qed

section \<open>Refresh\<close>

lemma dispatched_map_Dispatch:
  "dispatched (map (\<lambda>name. Dispatch (f name)) names) = map f names"
  by (induction names) simp_all

lemma dispatched_removeMissing:
  "dispatched (removeMissing g known names)
     = map (RemoveMod g)
         (filter (\<lambda>name. case map_of known name of
                            None \<Rightarrow> False
                          | Some k \<Rightarrow> mod_state k = ''downloaded'' \<or> mod_state k = ''installed'')
            names)"
  by (induction names) (auto simp: removeMissing_def dispatched_append split: option.splits)

lemma refresh_dispatched:
  "dispatched (snd (refreshMods (Inr present) (map fst known) discover
                      (\<lambda>m. [Dispatch (AddMod g m)]) (removeMissing g known)))
     = map (\<lambda>name. AddMod g (discover name)) (filter (\<lambda>name. name \<notin> fst ` set known) present)
       @ map (RemoveMod g)
           (filter (\<lambda>name. case map_of known name of
                              None \<Rightarrow> False
                            | Some k \<Rightarrow> mod_state k = ''downloaded'' \<or> mod_state k = ''installed'')
              (filter (\<lambda>name. name \<notin> set present) (map fst known)))"
  by (simp add: refreshMods_def dispatched_append dispatched_map_Dispatch dispatched_removeMissing)

lemma dispatched_onGameModeActivated:
  "discovered s (activeGameId s) = Some (Some discoveryPath) \<Longrightarrow> getGame (activeGameId s) \<Longrightarrow>
   dispatched (onGameModeActivated getGame g s (Inr ()) (Inr present) discover)
     = dispatched (snd (refreshMods (Inr present)
          (map fst (case persistent_mods s g of None \<Rightarrow> [] | Some mods \<Rightarrow> mods)) discover
          (\<lambda>m. [Dispatch (AddMod g m)])
          (removeMissing g (case persistent_mods s g of None \<Rightarrow> [] | Some mods \<Rightarrow> mods))))"
  by (simp add: onGameModeActivated_def Let_def refreshMods_def dispatched_append)

lemma onGameModeActivated_early_return:
  "discovered s (activeGameId s) = None \<or> discovered s (activeGameId s) = Some None
     \<or> \<not> getGame (activeGameId s) \<Longrightarrow>
   onGameModeActivated getGame g s activatorProm disk discover = []"
  by (auto simp: onGameModeActivated_def Let_def split: option.splits)

lemma dispatched_onPathsChanged:
  "previous (activeGameId s) \<noteq> current (activeGameId s) \<Longrightarrow>
   dispatched (onPathsChanged previous current s (Inr present) discover)
     = dispatched (snd (refreshMods (Inr present)
          (map fst (case persistent_mods s (activeGameId s) of None \<Rightarrow> [] | Some mods \<Rightarrow> mods))
          discover
          (\<lambda>m. [Dispatch (AddMod (activeGameId s) m)])
          (removeMissing (activeGameId s)
             (case persistent_mods s (activeGameId s) of None \<Rightarrow> [] | Some mods \<Rightarrow> mods))))"
  by (simp add: onPathsChanged_def Let_def refreshMods_def)

lemma map_of_fst: "map_of known n = Some k \<Longrightarrow> n \<in> fst ` set known"
  by (metis map_of_SomeD fst_conv image_eqI)

lemma reconcile_facts:
  assumes "acts = map (\<lambda>name. AddMod g (discover name)) (filter (\<lambda>name. name \<notin> fst ` set known) present)
       @ map (RemoveMod g)
           (filter (\<lambda>name. case map_of known name of
                              None \<Rightarrow> False
                            | Some k \<Rightarrow> mod_state k = ''downloaded'' \<or> mod_state k = ''installed'')
              (filter (\<lambda>name. name \<notin> set present) (map fst known)))"
  shows "(\<forall>n. n \<in> set present \<and> n \<notin> fst ` set known \<longrightarrow> AddMod g (discover n) \<in> set acts)
     \<and> (\<forall>g' m. AddMod g' m \<in> set acts \<longrightarrow>
          g' = g \<and> (\<exists>n. m = discover n \<and> n \<in> set present \<and> n \<notin> fst ` set known))
     \<and> (\<forall>n k. map_of known n = Some k \<longrightarrow>
          (RemoveMod g n \<in> set acts \<longleftrightarrow>
             n \<notin> set present \<and> (mod_state k = ''downloaded'' \<or> mod_state k = ''installed'')))
     \<and> (\<forall>g' n. RemoveMod g' n \<in> set acts \<longrightarrow> g' = g \<and> (\<exists>k. map_of known n = Some k))"
proof -
  have "\<forall>n. n \<in> set present \<and> n \<notin> fst ` set known \<longrightarrow> AddMod g (discover n) \<in> set acts"
    unfolding assms by auto
  moreover have "\<forall>g' m. AddMod g' m \<in> set acts \<longrightarrow>
          g' = g \<and> (\<exists>n. m = discover n \<and> n \<in> set present \<and> n \<notin> fst ` set known)"
    unfolding assms by auto
  moreover have "\<forall>n k. map_of known n = Some k \<longrightarrow>
          (RemoveMod g n \<in> set acts \<longleftrightarrow>
             n \<notin> set present \<and> (mod_state k = ''downloaded'' \<or> mod_state k = ''installed''))"
    unfolding assms by (auto dest: map_of_fst)
  moreover have "\<forall>g' n. RemoveMod g' n \<in> set acts \<longrightarrow> g' = g \<and> (\<exists>k. map_of known n = Some k)"
    unfolding assms by (auto split: option.splits)
  ultimately show ?thesis by blast
qed

text \<open>
  Claim C9. Let \<open>tr\<close> be the effects of a refresh over a staging directory that holds
  \<open>present\<close>, with \<open>known\<close> the table of known mods of the game \<open>g\<close>: a refresh by
  \<open>onGameModeActivated\<close> for the new game \<open>g\<close> (the active game is discovered with a
  path and known to \<^verbatim>\<open>getGame\<close>, and \<^verbatim>\<open>activatorProm\<close> has resolved), or a refresh by
  \<open>onPathsChanged\<close> (the path of the active game \<open>g\<close> has changed). Then \<^verbatim>\<open>addMod\<close> is
  dispatched for every directory that is present and not known, and for nothing else; and
  for a known mod, \<^verbatim>\<open>removeMod\<close> is dispatched if and only if it is missing from the
  directory and its state is \<^verbatim>\<open>downloaded\<close> or \<^verbatim>\<open>installed\<close>. No \<^verbatim>\<open>removeMod\<close> is dispatched
  for anything else. When the active game is not discovered, has no path or is unknown
  to \<^verbatim>\<open>getGame\<close>, \<open>onGameModeActivated\<close> does not refresh: it has no effect at all.
\<close>

theorem reconciliation:
  assumes "((\<exists>discoveryPath. discovered s (activeGameId s) = Some (Some discoveryPath))
        \<and> getGame (activeGameId s)
        \<and> tr = onGameModeActivated getGame g s (Inr ()) (Inr present) discover)
     \<or> (activeGameId s = g \<and> previous g \<noteq> current g
        \<and> tr = onPathsChanged previous current s (Inr present) discover)"
    and "known = (case persistent_mods s g of None \<Rightarrow> [] | Some mods \<Rightarrow> mods)"
  shows "(\<forall>n. n \<in> set present \<and> n \<notin> fst ` set known \<longrightarrow>
            AddMod g (discover n) \<in> set (dispatched tr))
     \<and> (\<forall>g' m. AddMod g' m \<in> set (dispatched tr) \<longrightarrow>
          g' = g \<and> (\<exists>n. m = discover n \<and> n \<in> set present \<and> n \<notin> fst ` set known))
     \<and> (\<forall>n k. map_of known n = Some k \<longrightarrow>
          (RemoveMod g n \<in> set (dispatched tr) \<longleftrightarrow>
             n \<notin> set present \<and> (mod_state k = ''downloaded'' \<or> mod_state k = ''installed'')))
     \<and> (\<forall>g' n. RemoveMod g' n \<in> set (dispatched tr) \<longrightarrow> g' = g \<and> (\<exists>k. map_of known n = Some k))
     \<and> (\<forall>s' getGame' g' activatorProm disk.
          discovered s' (activeGameId s') = None \<or> discovered s' (activeGameId s') = Some None
            \<or> \<not> getGame' (activeGameId s') \<longrightarrow>
          onGameModeActivated getGame' g' s' activatorProm disk discover = [])"
proof -
  from assms(1)
  have "dispatched tr = dispatched (snd (refreshMods (Inr present) (map fst known) discover
                      (\<lambda>m. [Dispatch (AddMod g m)]) (removeMissing g known)))"
  proof
    assume "(\<exists>discoveryPath. discovered s (activeGameId s) = Some (Some discoveryPath))
        \<and> getGame (activeGameId s)
        \<and> tr = onGameModeActivated getGame g s (Inr ()) (Inr present) discover"
    then show ?thesis
      by (auto simp: dispatched_onGameModeActivated assms(2))
  next
    assume "activeGameId s = g \<and> previous g \<noteq> current g
        \<and> tr = onPathsChanged previous current s (Inr present) discover"
    then show ?thesis
      using dispatched_onPathsChanged [of previous s current present discover]
      by (auto simp: assms(2))
  qed
  then have "dispatched tr
    = map (\<lambda>name. AddMod g (discover name)) (filter (\<lambda>name. name \<notin> fst ` set known) present)
       @ map (RemoveMod g)
           (filter (\<lambda>name. case map_of known name of
                              None \<Rightarrow> False
                            | Some k \<Rightarrow> mod_state k = ''downloaded'' \<or> mod_state k = ''installed'')
              (filter (\<lambda>name. name \<notin> set present) (map fst known)))"
    by (simp add: refresh_dispatched)
  from reconcile_facts [OF this] onGameModeActivated_early_return [where discover = discover]
  show ?thesis by blast
qed

theorem reconciliation_witness:
  "AddMod ''skyrim'' (sample_mod ''D'' ''installed'')
      \<in> set (dispatched (onGameModeActivated (\<lambda>g. g = ''skyrim'') ''skyrim'' sample_state (Inr ())
                            (Inr [''A'', ''D'']) (\<lambda>n. sample_mod n ''installed'')))
   \<and> RemoveMod ''skyrim'' ''C''
      \<in> set (dispatched (onGameModeActivated (\<lambda>g. g = ''skyrim'') ''skyrim'' sample_state (Inr ())
                            (Inr [''A'', ''D'']) (\<lambda>n. sample_mod n ''installed'')))
   \<and> RemoveMod ''skyrim'' ''B''
      \<notin> set (dispatched (onGameModeActivated (\<lambda>g. g = ''skyrim'') ''skyrim'' sample_state (Inr ())
                            (Inr [''A'', ''D'']) (\<lambda>n. sample_mod n ''installed'')))
   \<and> RemoveMod ''skyrim'' ''A''
      \<notin> set (dispatched (onGameModeActivated (\<lambda>g. g = ''skyrim'') ''skyrim'' sample_state (Inr ())
                            (Inr [''A'', ''D'']) (\<lambda>n. sample_mod n ''installed'')))
   \<and> RemoveMod ''skyrim'' ''C''
      \<in> set (dispatched (onPathsChanged (\<lambda>g. Some ''/old'') (\<lambda>g. Some ''/staging'') sample_state
                            (Inr [''A'', ''D'']) (\<lambda>n. sample_mod n ''installed'')))
   \<and> RemoveMod ''skyrim'' ''B''
      \<notin> set (dispatched (onPathsChanged (\<lambda>g. Some ''/old'') (\<lambda>g. Some ''/staging'') sample_state
                            (Inr [''A'', ''D'']) (\<lambda>n. sample_mod n ''installed'')))
   \<and> onGameModeActivated (\<lambda>g. g = ''skyrim'') ''skyrim''
        (sample_state\<lparr>discovered := (\<lambda>g. None)\<rparr>) (Inr ()) (Inr [''A'', ''D''])
        (\<lambda>n. sample_mod n ''installed'') = []
   \<and> onGameModeActivated (\<lambda>g. g = ''skyrim'') ''skyrim''
        (sample_state\<lparr>discovered := (\<lambda>g. Some None)\<rparr>) (Inr ()) (Inr [''A'', ''D''])
        (\<lambda>n. sample_mod n ''installed'') = []
   \<and> onGameModeActivated (\<lambda>g. False) ''skyrim'' sample_state (Inr ()) (Inr [''A'', ''D''])
        (\<lambda>n. sample_mod n ''installed'') = []"
proof -
  let ?known = "[(''A'', sample_mod ''A'' ''installed''), (''B'', sample_mod ''B'' ''downloading''),
                 (''C'', sample_mod ''C'' ''installed'')]"
  have k: "?known = (case persistent_mods sample_state ''skyrim'' of None \<Rightarrow> [] | Some mods \<Rightarrow> mods)"
    by (simp add: sample_state_def)
  have h1: "(\<exists>discoveryPath. discovered sample_state (activeGameId sample_state)
                = Some (Some discoveryPath))
      \<and> (\<lambda>g. g = ''skyrim'') (activeGameId sample_state)
      \<and> onGameModeActivated (\<lambda>g. g = ''skyrim'') ''skyrim'' sample_state (Inr ())
            (Inr [''A'', ''D'']) (\<lambda>n. sample_mod n ''installed'')
        = onGameModeActivated (\<lambda>g. g = ''skyrim'') ''skyrim'' sample_state (Inr ())
            (Inr [''A'', ''D'']) (\<lambda>n. sample_mod n ''installed'')"
    by (simp add: sample_state_def)
  have h2: "activeGameId sample_state = ''skyrim''
      \<and> (\<lambda>g. Some ''/old'') ''skyrim'' \<noteq> (\<lambda>g. Some ''/staging'') ''skyrim''
      \<and> onPathsChanged (\<lambda>g. Some ''/old'') (\<lambda>g. Some ''/staging'') sample_state
            (Inr [''A'', ''D'']) (\<lambda>n. sample_mod n ''installed'')
        = onPathsChanged (\<lambda>g. Some ''/old'') (\<lambda>g. Some ''/staging'') sample_state
            (Inr [''A'', ''D'']) (\<lambda>n. sample_mod n ''installed'')"
    by (simp add: sample_state_def)
  note i1 = reconciliation [OF disjI1 [OF h1] k]
  note i2 = reconciliation [OF disjI2 [OF h2] k]
  have facts: "''D'' \<in> set [''A'', ''D''] \<and> ''D'' \<notin> fst ` set ?known"
    "map_of ?known ''A'' = Some (sample_mod ''A'' ''installed'')"
    "map_of ?known ''B'' = Some (sample_mod ''B'' ''downloading'')"
    "map_of ?known ''C'' = Some (sample_mod ''C'' ''installed'')"
    "''A'' \<in> set [''A'', ''D'']" "''B'' \<notin> set [''A'', ''D'']" "''C'' \<notin> set [''A'', ''D'']"
    "mod_state (sample_mod ''A'' ''installed'') = ''installed''"
    "mod_state (sample_mod ''B'' ''downloading'') = ''downloading''"
    "mod_state (sample_mod ''C'' ''installed'') = ''installed''"
    by (simp_all add: sample_mod_def)
  have early: "discovered (sample_state\<lparr>discovered := (\<lambda>g. None)\<rparr>)
        (activeGameId (sample_state\<lparr>discovered := (\<lambda>g. None)\<rparr>)) = None"
    "discovered (sample_state\<lparr>discovered := (\<lambda>g. Some None)\<rparr>)
        (activeGameId (sample_state\<lparr>discovered := (\<lambda>g. Some None)\<rparr>)) = Some None"
    "\<not> (\<lambda>g. False) (activeGameId sample_state)"
    by simp_all
  note add1 = i1 [THEN conjunct1]
  note rem1 = i1 [THEN conjunct2, THEN conjunct2, THEN conjunct1, rule_format]
  note rem2 = i2 [THEN conjunct2, THEN conjunct2, THEN conjunct1, rule_format]
  note none1 = i1 [THEN conjunct2, THEN conjunct2, THEN conjunct2, THEN conjunct2, rule_format]
  have a1: "AddMod ''skyrim'' (sample_mod ''D'' ''installed'')
      \<in> set (dispatched (onGameModeActivated (\<lambda>g. g = ''skyrim'') ''skyrim'' sample_state (Inr ())
                            (Inr [''A'', ''D'']) (\<lambda>n. sample_mod n ''installed'')))"
    using add1 facts(1) by blast
  have a2: "RemoveMod ''skyrim'' ''C''
      \<in> set (dispatched (onGameModeActivated (\<lambda>g. g = ''skyrim'') ''skyrim'' sample_state (Inr ())
                            (Inr [''A'', ''D'']) (\<lambda>n. sample_mod n ''installed'')))"
    using rem1 [OF facts(4)] facts(7,10) by simp
  have a3: "RemoveMod ''skyrim'' ''B''
      \<notin> set (dispatched (onGameModeActivated (\<lambda>g. g = ''skyrim'') ''skyrim'' sample_state (Inr ())
                            (Inr [''A'', ''D'']) (\<lambda>n. sample_mod n ''installed'')))"
    using rem1 [OF facts(3)] facts(9) by simp
  have a4: "RemoveMod ''skyrim'' ''A''
      \<notin> set (dispatched (onGameModeActivated (\<lambda>g. g = ''skyrim'') ''skyrim'' sample_state (Inr ())
                            (Inr [''A'', ''D'']) (\<lambda>n. sample_mod n ''installed'')))"
    using rem1 [OF facts(2)] facts(5) by simp
  have a5: "RemoveMod ''skyrim'' ''C''
      \<in> set (dispatched (onPathsChanged (\<lambda>g. Some ''/old'') (\<lambda>g. Some ''/staging'') sample_state
                            (Inr [''A'', ''D'']) (\<lambda>n. sample_mod n ''installed'')))"
    using rem2 [OF facts(4)] facts(7,10) by simp
  have a6: "RemoveMod ''skyrim'' ''B''
      \<notin> set (dispatched (onPathsChanged (\<lambda>g. Some ''/old'') (\<lambda>g. Some ''/staging'') sample_state
                            (Inr [''A'', ''D'']) (\<lambda>n. sample_mod n ''installed'')))"
    using rem2 [OF facts(3)] facts(9) by simp
  have a7: "onGameModeActivated (\<lambda>g. g = ''skyrim'') ''skyrim''
        (sample_state\<lparr>discovered := (\<lambda>g. None)\<rparr>) (Inr ()) (Inr [''A'', ''D''])
        (\<lambda>n. sample_mod n ''installed'') = []"
    using none1 [OF disjI1 [OF early(1)]] by simp
  have a8: "onGameModeActivated (\<lambda>g. g = ''skyrim'') ''skyrim''
        (sample_state\<lparr>discovered := (\<lambda>g. Some None)\<rparr>) (Inr ()) (Inr [''A'', ''D''])
        (\<lambda>n. sample_mod n ''installed'') = []"
    using none1 [OF disjI2 [OF disjI1 [OF early(2)]]] by simp
  have a9: "onGameModeActivated (\<lambda>g. False) ''skyrim'' sample_state (Inr ()) (Inr [''A'', ''D''])
        (\<lambda>n. sample_mod n ''installed'') = []"
    using none1 [OF disjI2 [OF disjI2 [OF early(3)]]] by simp
  from a1 a2 a3 a4 a5 a6 a7 a8 a9 show ?thesis by blast
qed

end
